theory Spec2Isabelle
  imports Complex_Main "HOL-Library.Word" "HOL-Library.Sublist"
begin

unbundle bit_operations_syntax

section \<open>models: the entities and the request and response bodies\<close>

text \<open>
  A \<open>uuid.UUID\<close> is sixteen bytes, read here as one 128-bit word (the first byte is the
  most significant one); \<open>uuid.Nil\<close> is the word 0.  Instants of time are
  natural numbers, and the \<open>float64\<close> quantities and prices are the reals they denote:
  a number decoded from JSON is finite, and the code only compares it with zero and
  stores it.
\<close>

type_synonym uuid = "128 word"

type_synonym time = nat

definition uuid_Nil :: uuid where
  "uuid_Nil = 0"

definition hex_digit :: "nat \<Rightarrow> char" where
  "hex_digit n = ''0123456789abcdef'' ! n"

definition uuid_hex :: "uuid \<Rightarrow> nat \<Rightarrow> nat \<Rightarrow> string" where
  "uuid_hex u i j = map (\<lambda>k. hex_digit (unat (drop_bit (4 * (31 - k)) u AND 15))) [i..<j]"

text \<open>
  Each of the 32 four-bit groups of the word indexes the sixteen hex digits.
  \<open>UUID.String\<close>: the form xxxxxxxx-xxxx-xxxx-xxxx-xxxxxxxxxxxx, in lower-case hex.
\<close>

definition uuid_String :: "uuid \<Rightarrow> string" where
  "uuid_String u =
     uuid_hex u 0 8 @ ''-'' @ uuid_hex u 8 12 @ ''-'' @ uuid_hex u 12 16 @ ''-'' @
     uuid_hex u 16 20 @ ''-'' @ uuid_hex u 20 32"

record Pharmacy =
  Pharmacy_ID :: int
  Pharmacy_NPI :: string
  Pharmacy_Chain :: string

record Claim =
  Claim_ID :: uuid
  Claim_NDC :: string
  Claim_Quantity :: real
  Claim_NPI :: string
  Claim_Price :: real
  Claim_Timestamp :: time

record Reversal =
  Reversal_ID :: uuid
  Reversal_ClaimID :: uuid
  Reversal_Timestamp :: time

record ClaimRequest =
  ClaimRequest_NDC :: string
  ClaimRequest_Quantity :: real
  ClaimRequest_NPI :: string
  ClaimRequest_Price :: real

record ClaimResponse =
  ClaimResponse_Status :: string
  ClaimResponse_ClaimID :: uuid

record ReversalRequest =
  ReversalRequest_ClaimID :: uuid
  ReversalRequest_Reason :: string

record ReversalResponse =
  ReversalResponse_Status :: string
  ReversalResponse_ClaimID :: uuid

record ErrorResponse =
  ErrorResponse_Error :: string
  ErrorResponse_Message :: string

section \<open>utility: the validator\<close>

text \<open>
  \<open>strconv.Atoi\<close> on a 64-bit platform: an optional sign \<open>+\<close> or \<open>-\<close>, then at least
  one decimal digit and nothing else; the value has to fit a signed 64-bit integer.
\<close>

datatype NumError = ErrSyntax | ErrRange

definition is_digit :: "char \<Rightarrow> bool" where
  "is_digit c = (48 \<le> (of_char c :: nat) \<and> (of_char c :: nat) \<le> 57)"

fun digits_value :: "nat \<Rightarrow> string \<Rightarrow> nat" where
  "digits_value n [] = n"
| "digits_value n (c # cs) = digits_value (n * 10 + ((of_char c :: nat) - 48)) cs"

definition has_sign :: "string \<Rightarrow> bool" where
  "has_sign s = (case s of [] \<Rightarrow> False | c # _ \<Rightarrow> c = CHR ''-'' \<or> c = CHR ''+'')"

definition Atoi :: "string \<Rightarrow> NumError + int" where
  "Atoi s =
     (let ds = (if has_sign s then tl s else s) in
      if ds = [] \<or> \<not> list_all is_digit ds then Inl ErrSyntax
      else
        let n = int (digits_value 0 ds) in
        if hd s = CHR ''-''
        then (if n \<le> 2 ^ 63 then Inr (- n) else Inl ErrRange)
        else (if n < 2 ^ 63 then Inr n else Inl ErrRange))"

text \<open>An \<open>error\<close> is the text \<open>Error()\<close> returns; \<open>None\<close> is \<open>nil\<close>.\<close>

type_synonym error = "string option"

definition ValidateNDC :: "string \<Rightarrow> error" where
  "ValidateNDC ndc =
     (if length ndc < 9 \<or> length ndc > 11 then Some ''invalid NDC format: must be 9-11 digits''
      else case Atoi ndc of
        Inl _ \<Rightarrow> Some ''invalid NDC format: must be numeric''
      | Inr _ \<Rightarrow> None)"

definition ValidateNPI :: "string \<Rightarrow> error" where
  "ValidateNPI npi =
     (if length npi \<noteq> 10 then Some ''invalid NPI: must be exactly 10 digits''
      else case Atoi npi of
        Inl _ \<Rightarrow> Some ''invalid NPI: must be numeric''
      | Inr _ \<Rightarrow> None)"

definition ValidateQuantity :: "real \<Rightarrow> error" where
  "ValidateQuantity quantity =
     (if quantity \<le> 0 then Some ''invalid quantity: must be greater than 0'' else None)"

definition ValidatePrice :: "real \<Rightarrow> error" where
  "ValidatePrice price =
     (if price < 0 then Some ''invalid price: must be non-negative'' else None)"

definition ValidateClaimRequest :: "ClaimRequest \<Rightarrow> error" where
  "ValidateClaimRequest request =
     (case ValidateNDC (ClaimRequest_NDC request) of
        Some err \<Rightarrow> Some err
      | None \<Rightarrow>
     (case ValidateNPI (ClaimRequest_NPI request) of
        Some err \<Rightarrow> Some err
      | None \<Rightarrow>
     (case ValidateQuantity (ClaimRequest_Quantity request) of
        Some err \<Rightarrow> Some err
      | None \<Rightarrow>
     (case ValidatePrice (ClaimRequest_Price request) of
        Some err \<Rightarrow> Some err
      | None \<Rightarrow> None))))"

section \<open>service: the loader's construction\<close>

definition DefaultBatchSize :: int where
  "DefaultBatchSize = 1000"

definition MaxBatchSize :: int where
  "MaxBatchSize = 10000"

definition MaxConcurrentWorkers :: int where
  "MaxConcurrentWorkers = 10"

text \<open>
  Of the loader's fields only \<open>batchSize\<close> is data; the repository, the logger and the
  validator it holds are the one store, the one log and the functions above.  The
  line the constructor logs when it falls back on the default is no part of the value
  it returns.
\<close>

record LoaderService =
  batchSize :: int

definition NewLoaderServiceWithBatchSize :: "int \<Rightarrow> LoaderService" where
  "NewLoaderServiceWithBatchSize b =
     \<lparr>batchSize = (if b \<le> 0 \<or> b > MaxBatchSize then DefaultBatchSize else b)\<rparr>"

definition NewLoaderService :: LoaderService where
  "NewLoaderService = NewLoaderServiceWithBatchSize DefaultBatchSize"


section \<open>The store, the log and the environment\<close>

text \<open>
  The state threaded through every operation.  The three tables are the rows of the
  migration's tables in insertion order, \<open>serial\<close> is the sequence behind
  \<open>pharmacies.id\<close>.  \<open>faults\<close> is the environment's script for the round trips to the
  database still to come: \<open>None\<close> lets the statement run, \<open>Some msg\<close> makes the driver
  return an error with that text; an exhausted script lets every statement run.
  \<open>rand\<close> and \<open>drawn\<close> are the source of \<open>uuid.New\<close>, \<open>clock\<close> is \<open>time.Now\<close>.
  \<open>calls\<close> records the repository methods entered, so that a property can say that
  none was; \<open>events\<close> are the audit events written by \<open>Logger.LogEvent\<close> and
  \<open>stdlog\<close> the lines of the standard logger.
\<close>

datatype Value = VString string | VNumber real | VUuid uuid

record Event =
  Event_Type :: string
  Event_Payload :: "(string \<times> Value) list"

datatype Arg = S string | I int | L "string list"

datatype LogLine = Printf string "Arg list"

datatype Call =
    CallGetPharmacyByNPI string
  | CallCreateClaim Claim
  | CallGetClaimByID uuid
  | CallReverseClaim uuid string
  | CallBatchCreatePharmacies "Pharmacy list"
  | CallBatchCreateClaims "Claim list"
  | CallBatchCreateReversals "Reversal list"
  | CallCountPharmacies
  | CallCountClaims
  | CallCountReversals

record world =
  pharmacies :: "Pharmacy list"
  claims :: "Claim list"
  reversals :: "Reversal list"
  serial :: int
  faults :: "string option list"
  rand :: "nat \<Rightarrow> uuid"
  drawn :: nat
  clock :: time
  calls :: "Call list"
  events :: "Event list"
  stdlog :: "LogLine list"

definition roundtrip :: "world \<Rightarrow> error \<times> world" where
  "roundtrip w = (case faults w of [] \<Rightarrow> (None, w) | f # fs \<Rightarrow> (f, w\<lparr>faults := fs\<rparr>))"

text \<open>The next round trip is not hit by a fault.\<close>

definition next_answered :: "world \<Rightarrow> bool" where
  "next_answered w = (case faults w of [] \<Rightarrow> True | f # _ \<Rightarrow> f = None)"

definition entered :: "Call \<Rightarrow> world \<Rightarrow> world" where
  "entered c w = w\<lparr>calls := calls w @ [c]\<rparr>"

definition uuid_New :: "world \<Rightarrow> uuid \<times> world" where
  "uuid_New w = (rand w (drawn w), w\<lparr>drawn := Suc (drawn w)\<rparr>)"

definition log_Printf :: "string \<Rightarrow> Arg list \<Rightarrow> world \<Rightarrow> world" where
  "log_Printf format args w = w\<lparr>stdlog := stdlog w @ [Printf format args]\<rparr>"

text \<open>
  \<open>Logger.LogEvent\<close> draws two identifiers (one for the event's stamp, one for the
  file's name) and writes one event.  It returns nothing: a failure to write ends in
  a line of the standard logger and is left out here.
\<close>

definition LogEvent :: "string \<Rightarrow> (string \<times> Value) list \<Rightarrow> world \<Rightarrow> world" where
  "LogEvent eventType payload w =
     w\<lparr>drawn := drawn w + 2,
       events := events w @ [\<lparr>Event_Type = eventType, Event_Payload = payload\<rparr>]\<rparr>"

text \<open>A rolled-back transaction leaves the three tables as they were at its start.\<close>

definition rollback :: "world \<Rightarrow> world \<Rightarrow> world" where
  "rollback w0 w =
     w\<lparr>pharmacies := pharmacies w0, claims := claims w0, reversals := reversals w0\<rparr>"

subsection \<open>The constraints of the schema\<close>

text \<open>
  \<open>VARCHAR(n)\<close> bounds the number of characters: the bytes of the UTF-8 text that are
  not continuation bytes.  \<open>DECIMAL(10,2)\<close> rounds to two decimals, half away from
  zero, and refuses a value that then needs more than eight integer digits.
\<close>

definition char_length :: "string \<Rightarrow> nat" where
  "char_length s = length (filter (\<lambda>c. \<not> (128 \<le> (of_char c :: nat) \<and> (of_char c :: nat) < 192)) s)"

definition decimal_10_2 :: "real \<Rightarrow> real" where
  "decimal_10_2 x =
     (if 0 \<le> x then of_int \<lfloor>x * 100 + 1 / 2\<rfloor> / 100 else - (of_int \<lfloor>- x * 100 + 1 / 2\<rfloor> / 100))"

definition decimal_10_2_fits :: "real \<Rightarrow> bool" where
  "decimal_10_2_fits x = (\<bar>decimal_10_2 x\<bar> < 100000000)"

definition valid_chain :: "string \<Rightarrow> bool" where
  "valid_chain chain = (chain \<in> set [''health'', ''saint'', ''doctor''])"

text \<open>
  The rows \<open>batchInsert\<close> is handed, one constructor per table with the columns each
  \<open>BatchCreate\<close> method lists.
\<close>

datatype Row =
    PharmacyRow string string
  | ClaimRow uuid string real string real time
  | ReversalRow uuid uuid time

text \<open>
  One \<open>INSERT\<close>.  The outcome is the driver's error, if a constraint refuses the row,
  and the state after it.  The checks come in the order of the database: the column
  types and the \<open>CHECK\<close> constraint, then the primary key and the \<open>UNIQUE\<close> column,
  then the foreign key.  With \<open>ON CONFLICT DO NOTHING\<close> (\<open>skip\<close> is set) a row that
  collides on a key is dropped without an error; nothing else is forgiven.  The
  \<open>SERIAL\<close> column of a pharmacy draws its number before any check and keeps it drawn.
\<close>

fun insert_row :: "bool \<Rightarrow> Row \<Rightarrow> world \<Rightarrow> error \<times> world" where
  "insert_row skip (PharmacyRow npi chain) w =
     (let w1 = w\<lparr>serial := serial w + 1\<rparr> in
      if char_length npi > 10 then (Some ''pq: value too long for type character varying(10)'', w1)
      else if char_length chain > 20 then (Some ''pq: value too long for type character varying(20)'', w1)
      else if \<not> valid_chain chain then (Some ''pq: new row violates check constraint valid_chain'', w1)
      else if npi \<in> set (map Pharmacy_NPI (pharmacies w1))
           \<or> serial w \<in> set (map Pharmacy_ID (pharmacies w1))
      then (if skip then None else Some ''pq: duplicate key value violates unique constraint'', w1)
      else (None, w1\<lparr>pharmacies := pharmacies w1 @
              [\<lparr>Pharmacy_ID = serial w, Pharmacy_NPI = npi, Pharmacy_Chain = chain\<rparr>]\<rparr>))"
| "insert_row skip (ClaimRow cid ndc quantity npi price ts) w =
     (if char_length ndc > 11 then (Some ''pq: value too long for type character varying(11)'', w)
      else if char_length npi > 10 then (Some ''pq: value too long for type character varying(10)'', w)
      else if \<not> decimal_10_2_fits quantity \<or> \<not> decimal_10_2_fits price
      then (Some ''pq: numeric field overflow'', w)
      else if cid \<in> set (map Claim_ID (claims w))
      then (if skip then None else Some ''pq: duplicate key value violates unique constraint'', w)
      else if npi \<notin> set (map Pharmacy_NPI (pharmacies w))
      then (Some ''pq: insert on table claims violates foreign key constraint'', w)
      else (None, w\<lparr>claims := claims w @
              [\<lparr>Claim_ID = cid, Claim_NDC = ndc, Claim_Quantity = decimal_10_2 quantity,
                Claim_NPI = npi, Claim_Price = decimal_10_2 price, Claim_Timestamp = ts\<rparr>]\<rparr>))"
| "insert_row skip (ReversalRow rid cid ts) w =
     (if rid \<in> set (map Reversal_ID (reversals w))
      then (if skip then None else Some ''pq: duplicate key value violates unique constraint'', w)
      else if cid \<notin> set (map Claim_ID (claims w))
      then (Some ''pq: insert on table reversals violates foreign key constraint'', w)
      else (None, w\<lparr>reversals := reversals w @
              [\<lparr>Reversal_ID = rid, Reversal_ClaimID = cid, Reversal_Timestamp = ts\<rparr>]\<rparr>))"

section \<open>repository: the Postgres gateway\<close>

text \<open>
  Every method enters itself into \<open>calls\<close> and then talks to the database; each
  \<open>QueryRow\<close>, \<open>Exec\<close>, \<open>Prepare\<close>, \<open>BeginTx\<close> and \<open>Commit\<close> is one round trip.
  A \<open>Rollback\<close> never reports, so it draws nothing from the script.
\<close>

definition GetPharmacyByNPI :: "string \<Rightarrow> world \<Rightarrow> (string + Pharmacy option) \<times> world" where
  "GetPharmacyByNPI npi w =
     (case roundtrip (entered (CallGetPharmacyByNPI npi) w) of
        (Some err, w1) \<Rightarrow> (Inl (''failed to get pharmacy by NPI: '' @ err), w1)
      | (None, w1) \<Rightarrow> (Inr (find (\<lambda>p. Pharmacy_NPI p = npi) (pharmacies w1)), w1))"

definition CreateClaim :: "Claim \<Rightarrow> world \<Rightarrow> error \<times> world" where
  "CreateClaim claim w =
     (case roundtrip (entered (CallCreateClaim claim) w) of
        (Some err, w1) \<Rightarrow> (Some (''failed to create claim: '' @ err), w1)
      | (None, w1) \<Rightarrow>
          (case insert_row False
                  (ClaimRow (Claim_ID claim) (Claim_NDC claim) (Claim_Quantity claim)
                     (Claim_NPI claim) (Claim_Price claim) (Claim_Timestamp claim)) w1 of
             (Some err, w2) \<Rightarrow> (Some (''failed to create claim: '' @ err), w2)
           | (None, w2) \<Rightarrow> (None, w2)))"

definition GetClaimByID :: "uuid \<Rightarrow> world \<Rightarrow> (string + Claim option) \<times> world" where
  "GetClaimByID cid w =
     (case roundtrip (entered (CallGetClaimByID cid) w) of
        (Some err, w1) \<Rightarrow> (Inl (''failed to get claim by ID: '' @ err), w1)
      | (None, w1) \<Rightarrow> (Inr (find (\<lambda>c. Claim_ID c = cid) (claims w1)), w1))"

text \<open>
  \<open>DB.ExecuteInTransaction\<close>.  Its result is the value of \<open>fn\<close>: the deferred function
  stores the error of \<open>Commit\<close> in the local variable only after the result has been
  set, so a failed commit undoes the work and still returns \<open>nil\<close>.
\<close>

definition ExecuteInTransaction :: "(world \<Rightarrow> error \<times> world) \<Rightarrow> world \<Rightarrow> error \<times> world" where
  "ExecuteInTransaction fn w =
     (case roundtrip w of
        (Some err, w1) \<Rightarrow> (Some (''failed to begin transaction: '' @ err), w1)
      | (None, w1) \<Rightarrow>
          (case fn w1 of
             (Some err, w2) \<Rightarrow> (Some err, rollback w1 w2)
           | (None, w2) \<Rightarrow>
               (case roundtrip w2 of
                  (Some _, w3) \<Rightarrow> (None, rollback w1 w3)
                | (None, w3) \<Rightarrow> (None, w3))))"

definition reverse_tx :: "uuid \<Rightarrow> world \<Rightarrow> error \<times> world" where
  "reverse_tx claimID w =
     (case roundtrip w of
        (Some err, w1) \<Rightarrow> (Some (''failed to check if claim exists: '' @ err), w1)
      | (None, w1) \<Rightarrow>
          if claimID \<notin> set (map Claim_ID (claims w1)) then (Some ''claim not found'', w1)
          else
            (case roundtrip w1 of
               (Some err, w2) \<Rightarrow> (Some (''failed to check if claim already reversed: '' @ err), w2)
             | (None, w2) \<Rightarrow>
                 if claimID \<in> set (map Reversal_ClaimID (reversals w2))
                 then (Some ''claim already reversed'', w2)
                 else
                   (case uuid_New w2 of
                      (reversalID, w3) \<Rightarrow>
                        (case roundtrip w3 of
                           (Some err, w4) \<Rightarrow> (Some (''failed to create reversal record: '' @ err), w4)
                         | (None, w4) \<Rightarrow>
                             (case insert_row False (ReversalRow reversalID claimID (clock w4)) w4 of
                                (Some err, w5) \<Rightarrow>
                                  (Some (''failed to create reversal record: '' @ err), w5)
                              | (None, w5) \<Rightarrow> (None, w5))))))"

definition Postgres_ReverseClaim :: "uuid \<Rightarrow> string \<Rightarrow> world \<Rightarrow> error \<times> world" where
  "Postgres_ReverseClaim claimID reason w =
     ExecuteInTransaction (reverse_tx claimID) (entered (CallReverseClaim claimID reason) w)"

fun exec_rows :: "Row list \<Rightarrow> world \<Rightarrow> error \<times> world" where
  "exec_rows [] w = (None, w)"
| "exec_rows (row # rows) w =
     (case roundtrip w of
        (Some err, w1) \<Rightarrow> (Some (''failed to execute insert: '' @ err), w1)
      | (None, w1) \<Rightarrow>
          (case insert_row True row w1 of
             (Some err, w2) \<Rightarrow> (Some (''failed to execute insert: '' @ err), w2)
           | (None, w2) \<Rightarrow> exec_rows rows w2))"

text \<open>
  \<open>batchInsert\<close>: one transaction, one prepared \<open>INSERT ... ON CONFLICT DO NOTHING\<close>,
  one \<open>Exec\<close> for each row; the first error rolls the whole batch back.  The table
  and the columns are those of the rows' constructor.
\<close>

definition batchInsert :: "Row list \<Rightarrow> world \<Rightarrow> error \<times> world" where
  "batchInsert rows w =
     (case roundtrip w of
        (Some err, w1) \<Rightarrow> (Some (''failed to begin transaction: '' @ err), w1)
      | (None, w1) \<Rightarrow>
          (case roundtrip w1 of
             (Some err, w2) \<Rightarrow> (Some (''failed to prepare statement: '' @ err), w2)
           | (None, w2) \<Rightarrow>
               (case exec_rows rows w2 of
                  (Some err, w3) \<Rightarrow> (Some err, rollback w1 w3)
                | (None, w3) \<Rightarrow>
                    (case roundtrip w3 of
                       (Some err, w4) \<Rightarrow> (Some err, rollback w1 w4)
                     | (None, w4) \<Rightarrow> (None, w4)))))"

definition BatchCreatePharmacies :: "Pharmacy list \<Rightarrow> world \<Rightarrow> error \<times> world" where
  "BatchCreatePharmacies ps w =
     batchInsert (map (\<lambda>p. PharmacyRow (Pharmacy_NPI p) (Pharmacy_Chain p)) ps)
       (entered (CallBatchCreatePharmacies ps) w)"

definition BatchCreateClaims :: "Claim list \<Rightarrow> world \<Rightarrow> error \<times> world" where
  "BatchCreateClaims cs w =
     batchInsert
       (map (\<lambda>c. ClaimRow (Claim_ID c) (Claim_NDC c) (Claim_Quantity c) (Claim_NPI c)
                   (Claim_Price c) (Claim_Timestamp c)) cs)
       (entered (CallBatchCreateClaims cs) w)"

definition BatchCreateReversals :: "Reversal list \<Rightarrow> world \<Rightarrow> error \<times> world" where
  "BatchCreateReversals rs w =
     batchInsert
       (map (\<lambda>r. ReversalRow (Reversal_ID r) (Reversal_ClaimID r) (Reversal_Timestamp r)) rs)
       (entered (CallBatchCreateReversals rs) w)"

datatype Table = PharmaciesTable | ClaimsTable | ReversalsTable

fun table_name :: "Table \<Rightarrow> string" where
  "table_name PharmaciesTable = ''pharmacies''"
| "table_name ClaimsTable = ''claims''"
| "table_name ReversalsTable = ''reversals''"

fun table_size :: "Table \<Rightarrow> world \<Rightarrow> nat" where
  "table_size PharmaciesTable w = length (pharmacies w)"
| "table_size ClaimsTable w = length (claims w)"
| "table_size ReversalsTable w = length (reversals w)"

definition countRows :: "Table \<Rightarrow> world \<Rightarrow> (string + int) \<times> world" where
  "countRows t w =
     (case roundtrip w of
        (Some err, w1) \<Rightarrow> (Inl (''failed to count rows in '' @ table_name t @ '': '' @ err), w1)
      | (None, w1) \<Rightarrow> (Inr (int (table_size t w1)), w1))"

definition CountPharmacies :: "world \<Rightarrow> (string + int) \<times> world" where
  "CountPharmacies w = countRows PharmaciesTable (entered CallCountPharmacies w)"

definition CountClaims :: "world \<Rightarrow> (string + int) \<times> world" where
  "CountClaims w = countRows ClaimsTable (entered CallCountClaims w)"

definition CountReversals :: "world \<Rightarrow> (string + int) \<times> world" where
  "CountReversals w = countRows ReversalsTable (entered CallCountReversals w)"

section \<open>service: submitting and reversing claims\<close>

definition ClaimsService_ValidateClaim :: "ClaimRequest \<Rightarrow> error" where
  "ClaimsService_ValidateClaim request = ValidateClaimRequest request"

definition ClaimsService_SubmitClaim ::
  "ClaimRequest \<Rightarrow> world \<Rightarrow> (string + ClaimResponse) \<times> world" where
  "ClaimsService_SubmitClaim request w =
     (case ClaimsService_ValidateClaim request of
        Some err \<Rightarrow> (Inl err, w)
      | None \<Rightarrow>
          (case GetPharmacyByNPI (ClaimRequest_NPI request) w of
             (Inl err, w1) \<Rightarrow> (Inl (''failed to validate pharmacy: '' @ err), w1)
           | (Inr None, w1) \<Rightarrow>
               (Inl (''pharmacy with NPI '' @ ClaimRequest_NPI request @ '' not found''), w1)
           | (Inr (Some pharmacy), w1) \<Rightarrow>
               (case uuid_New w1 of
                  (newID, w2) \<Rightarrow>
                    (let claim = \<lparr>Claim_ID = newID, Claim_NDC = ClaimRequest_NDC request,
                                  Claim_Quantity = ClaimRequest_Quantity request,
                                  Claim_NPI = ClaimRequest_NPI request,
                                  Claim_Price = ClaimRequest_Price request,
                                  Claim_Timestamp = clock w2\<rparr>
                     in case CreateClaim claim w2 of
                          (Some err, w3) \<Rightarrow> (Inl (''failed to create claim: '' @ err), w3)
                        | (None, w3) \<Rightarrow>
                            (Inr \<lparr>ClaimResponse_Status = ''claim submitted'',
                                  ClaimResponse_ClaimID = Claim_ID claim\<rparr>,
                             LogEvent ''claim_submitted''
                               [(''claim_id'', VString (uuid_String (Claim_ID claim))),
                                (''ndc'', VString (Claim_NDC claim)),
                                (''quantity'', VNumber (Claim_Quantity claim)),
                                (''npi'', VString (Claim_NPI claim)),
                                (''price'', VNumber (Claim_Price claim)),
                                (''chain'', VString (Pharmacy_Chain pharmacy))] w3)))))"

definition ClaimsService_ReverseClaim ::
  "ReversalRequest \<Rightarrow> world \<Rightarrow> (string + ReversalResponse) \<times> world" where
  "ClaimsService_ReverseClaim request w =
     (case GetClaimByID (ReversalRequest_ClaimID request) w of
        (Inl err, w1) \<Rightarrow> (Inl (''failed to get claim: '' @ err), w1)
      | (Inr None, w1) \<Rightarrow>
          (Inl (''claim with ID '' @ uuid_String (ReversalRequest_ClaimID request) @ '' not found''), w1)
      | (Inr (Some claim), w1) \<Rightarrow>
          (case Postgres_ReverseClaim (ReversalRequest_ClaimID request)
                  (ReversalRequest_Reason request) w1 of
             (Some err, w2) \<Rightarrow> (Inl (''failed to reverse claim: '' @ err), w2)
           | (None, w2) \<Rightarrow>
               (case (case GetPharmacyByNPI (Claim_NPI claim) w2 of
                        (Inl err, w3) \<Rightarrow>
                          (None, log_Printf ''Failed to get pharmacy for logging: %v'' [S err] w3)
                      | (Inr pharmacy, w3) \<Rightarrow> (pharmacy, w3)) of
                  (pharmacy, w3) \<Rightarrow>
                    (Inr \<lparr>ReversalResponse_Status = ''claim reversed'',
                          ReversalResponse_ClaimID = Claim_ID claim\<rparr>,
                     LogEvent ''claim_reversed''
                       ([(''claim_id'', VString (uuid_String (Claim_ID claim))),
                         (''original_ndc'', VString (Claim_NDC claim)),
                         (''original_quantity'', VNumber (Claim_Quantity claim)),
                         (''original_npi'', VString (Claim_NPI claim)),
                         (''original_price'', VNumber (Claim_Price claim)),
                         (''reason'', VString (ReversalRequest_Reason request))] @
                        (case pharmacy of
                           None \<Rightarrow> []
                         | Some p \<Rightarrow> [(''chain'', VString (Pharmacy_Chain p))])) w3))))"

section \<open>handlers: the HTTP boundary\<close>

text \<open>
  A request is its method and its body as \<open>json.Decoder\<close> reads it into the request
  type of each endpoint: \<open>Inl\<close> the decoder's error, \<open>Inr\<close> the decoded value.  A
  response is the status written and the value encoded as its JSON body.
\<close>

record Request =
  Request_Method :: string
  Request_AsClaimRequest :: "string + ClaimRequest"
  Request_AsReversalRequest :: "string + ReversalRequest"

datatype Body =
    ErrorBody ErrorResponse
  | ClaimBody ClaimResponse
  | ReversalBody ReversalResponse
  | MapBody "(string \<times> string) list"

record Response =
  Response_ContentType :: string
  Response_StatusCode :: nat
  Response_Body :: Body

text \<open>
  The handler knows the service through \<open>ServiceInterface\<close> only; the tests put a
  mock behind it, the program the claims service.
\<close>

record ServiceInterface =
  ValidateClaim :: "ClaimRequest \<Rightarrow> world \<Rightarrow> error \<times> world"
  SubmitClaim :: "ClaimRequest \<Rightarrow> world \<Rightarrow> (string + ClaimResponse) \<times> world"
  ReverseClaim :: "ReversalRequest \<Rightarrow> world \<Rightarrow> (string + ReversalResponse) \<times> world"

definition NewClaimsService :: ServiceInterface where
  "NewClaimsService =
     \<lparr>ValidateClaim = (\<lambda>request w. (ClaimsService_ValidateClaim request, w)),
      SubmitClaim = ClaimsService_SubmitClaim,
      ReverseClaim = ClaimsService_ReverseClaim\<rparr>"

definition StatusOK :: nat where "StatusOK = 200"
definition StatusCreated :: nat where "StatusCreated = 201"
definition StatusBadRequest :: nat where "StatusBadRequest = 400"
definition StatusNotFound :: nat where "StatusNotFound = 404"
definition StatusMethodNotAllowed :: nat where "StatusMethodNotAllowed = 405"
definition StatusConflict :: nat where "StatusConflict = 409"
definition StatusInternalServerError :: nat where "StatusInternalServerError = 500"

definition sendJSONResponse :: "nat \<Rightarrow> Body \<Rightarrow> Response" where
  "sendJSONResponse statusCode data =
     \<lparr>Response_ContentType = ''application/json'', Response_StatusCode = statusCode,
      Response_Body = data\<rparr>"

definition sendErrorResponse :: "nat \<Rightarrow> string \<Rightarrow> string \<Rightarrow> Response" where
  "sendErrorResponse statusCode err message =
     sendJSONResponse statusCode
       (ErrorBody \<lparr>ErrorResponse_Error = err, ErrorResponse_Message = message\<rparr>)"

definition HttpHandler_SubmitClaim :: "ServiceInterface \<Rightarrow> Request \<Rightarrow> world \<Rightarrow> Response \<times> world" where
  "HttpHandler_SubmitClaim h r w =
     (if Request_Method r \<noteq> ''POST''
      then (sendErrorResponse StatusMethodNotAllowed ''Method not allowed''
              ''Only POST method is allowed'', w)
      else
        (case Request_AsClaimRequest r of
           Inl err \<Rightarrow> (sendErrorResponse StatusBadRequest ''Invalid JSON format'' err, w)
         | Inr request \<Rightarrow>
             (case ValidateClaim h request w of
                (Some err, w1) \<Rightarrow> (sendErrorResponse StatusBadRequest ''Validation failed'' err, w1)
              | (None, w1) \<Rightarrow>
                  (case SubmitClaim h request w1 of
                     (Inl err, w2) \<Rightarrow>
                       (if err = ''pharmacy with NPI '' @ ClaimRequest_NPI request @ '' not found''
                        then (sendErrorResponse StatusNotFound ''Pharmacy not found'' err, w2)
                        else (sendErrorResponse StatusInternalServerError
                                ''Failed to submit claim'' err, w2))
                   | (Inr response, w2) \<Rightarrow>
                       (sendJSONResponse StatusCreated (ClaimBody response), w2)))))"

definition HttpHandler_ReverseClaim :: "ServiceInterface \<Rightarrow> Request \<Rightarrow> world \<Rightarrow> Response \<times> world" where
  "HttpHandler_ReverseClaim h r w =
     (if Request_Method r \<noteq> ''POST''
      then (sendErrorResponse StatusMethodNotAllowed ''Method not allowed''
              ''Only POST method is allowed'', w)
      else
        (case Request_AsReversalRequest r of
           Inl err \<Rightarrow> (sendErrorResponse StatusBadRequest ''Invalid JSON format'' err, w)
         | Inr request \<Rightarrow>
             if ReversalRequest_ClaimID request = uuid_Nil
             then (sendErrorResponse StatusBadRequest ''Invalid claim_id''
                     ''claim_id must be a valid UUID'', w)
             else
               (case ReverseClaim h request w of
                  (Inl err, w1) \<Rightarrow>
                    (if err = ''claim with ID '' @ uuid_String (ReversalRequest_ClaimID request) @
                              '' not found''
                     then (sendErrorResponse StatusNotFound ''Claim not found'' err, w1)
                     else if err = ''claim is already reversed''
                     then (sendErrorResponse StatusConflict ''Claim already reversed'' err, w1)
                     else (sendErrorResponse StatusInternalServerError
                             ''Failed to reverse claim'' err, w1))
                | (Inr response, w1) \<Rightarrow>
                    (sendJSONResponse StatusOK (ReversalBody response), w1))))"

definition HttpHandler_HealthCheck :: "ServiceInterface \<Rightarrow> Request \<Rightarrow> world \<Rightarrow> Response \<times> world" where
  "HttpHandler_HealthCheck h r w =
     (if Request_Method r \<noteq> ''GET''
      then (sendErrorResponse StatusMethodNotAllowed ''Method not allowed''
              ''Only GET method is allowed'', w)
      else (sendJSONResponse StatusOK (MapBody [(''status'', ''healthy'')]), w))"

text \<open>\<open>SetupRoutes\<close>: the handler registered for each pattern of the multiplexer.\<close>

definition SetupRoutes ::
  "ServiceInterface \<Rightarrow> string \<Rightarrow> (Request \<Rightarrow> world \<Rightarrow> Response \<times> world) option" where
  "SetupRoutes h pattern =
     (if pattern = ''/claim'' then Some (HttpHandler_SubmitClaim h)
      else if pattern = ''/reversal'' then Some (HttpHandler_ReverseClaim h)
      else if pattern = ''/health'' then Some (HttpHandler_HealthCheck h)
      else None)"

section \<open>service: the bulk loader\<close>

subsection \<open>What the loader asks of the operating system\<close>

text \<open>
  The answers of the file system are taken as they come: \<open>Join\<close> and \<open>Base\<close> are
  \<open>filepath.Join\<close> and \<open>filepath.Base\<close>,
  \<open>Stat_IsNotExist\<close> tells whether \<open>os.Stat\<close> fails with a does-not-exist error,
  \<open>Glob\<close> is \<open>filepath.Glob\<close>.  A CSV file is the error of \<open>os.Open\<close> or what
  \<open>csv.Reader\<close> parses off it record by record, each a list of fields or a parse
  error; a JSON file is the error of \<open>os.ReadFile\<close>, the error of \<open>json.Unmarshal\<close>
  on its trimmed text, or the decoded array.  \<open>arrival\<close> is the scheduler: the order
  in which the workers' results for the files reach the consumer.
\<close>

datatype CsvRead = CsvRecord "string list" | CsvError string

datatype 'a JsonFile = ReadError string | ParseError string | Items "'a list"

record OS =
  Join :: "string \<Rightarrow> string \<Rightarrow> string"
  Base :: "string \<Rightarrow> string"
  Stat_IsNotExist :: "string \<Rightarrow> bool"
  Glob :: "string \<Rightarrow> string + string list"
  Open_csv :: "string \<Rightarrow> string + CsvRead list"
  ReadFile_claims :: "string \<Rightarrow> Claim JsonFile"
  ReadFile_reversals :: "string \<Rightarrow> Reversal JsonFile"
  arrival :: "string list \<Rightarrow> string list"

text \<open>
  \<open>csv.Reader.Read\<close> with the default \<open>FieldsPerRecord = 0\<close>: the first record fixes
  the number of fields, and a later record with another number comes back as an
  error.  The second component is \<open>FieldsPerRecord\<close> after the call.
\<close>

fun csv_Read :: "nat \<Rightarrow> CsvRead \<Rightarrow> (string + string list) \<times> nat" where
  "csv_Read k (CsvError err) = (Inl err, k)"
| "csv_Read k (CsvRecord cols) =
     (if 0 < k
      then (if length cols \<noteq> k then Inl ''wrong number of fields'' else Inr cols, k)
      else (Inr cols, length cols))"

text \<open>
  \<open>strings.TrimSpace\<close>: the white space of Unicode, in UTF-8, is cut off both ends.
\<close>

definition space_runes :: "string list" where
  "space_runes =
     [[CHR 0x09], [CHR 0x0A], [CHR 0x0B], [CHR 0x0C], [CHR 0x0D], [CHR 0x20],
      [CHR 0xC2, CHR 0x85], [CHR 0xC2, CHR 0xA0], [CHR 0xE1, CHR 0x9A, CHR 0x80],
      [CHR 0xE2, CHR 0x80, CHR 0x80], [CHR 0xE2, CHR 0x80, CHR 0x81],
      [CHR 0xE2, CHR 0x80, CHR 0x82], [CHR 0xE2, CHR 0x80, CHR 0x83],
      [CHR 0xE2, CHR 0x80, CHR 0x84], [CHR 0xE2, CHR 0x80, CHR 0x85],
      [CHR 0xE2, CHR 0x80, CHR 0x86], [CHR 0xE2, CHR 0x80, CHR 0x87],
      [CHR 0xE2, CHR 0x80, CHR 0x88], [CHR 0xE2, CHR 0x80, CHR 0x89],
      [CHR 0xE2, CHR 0x80, CHR 0x8A], [CHR 0xE2, CHR 0x80, CHR 0xA8],
      [CHR 0xE2, CHR 0x80, CHR 0xA9], [CHR 0xE2, CHR 0x80, CHR 0xAF],
      [CHR 0xE2, CHR 0x81, CHR 0x9F], [CHR 0xE3, CHR 0x80, CHR 0x80]]"

function strip_runes :: "string list \<Rightarrow> string \<Rightarrow> string" where
  "strip_runes rs s =
     (case find (\<lambda>r. r \<noteq> [] \<and> take (length r) s = r) rs of
        None \<Rightarrow> s
      | Some r \<Rightarrow> strip_runes rs (drop (length r) s))"
  by pat_completeness auto
termination
proof (relation "measure (\<lambda>(rs, s). length s)")
  show "wf (measure (\<lambda>(rs, s). length s))"
    by simp
next
  fix rs :: "string list" and s r :: string
  assume "find (\<lambda>r. r \<noteq> [] \<and> take (length r) s = r) rs = Some r"
  then have "r \<noteq> []" and "take (length r) s = r"
    by (auto simp: find_Some_iff)
  then have "0 < length r" and "length r = min (length s) (length r)"
    by (simp, metis length_take)
  then have "length s - length r < length s"
    by arith
  then show "((rs, drop (length r) s), (rs, s)) \<in> measure (\<lambda>(rs, s). length s)"
    by simp
qed

declare strip_runes.simps [simp del]

definition TrimSpace :: "string \<Rightarrow> string" where
  "TrimSpace s = rev (strip_runes (map rev space_runes) (rev (strip_runes space_runes s)))"

text \<open>The decimal text of \<open>%d\<close>.\<close>

fun Utoa :: "nat \<Rightarrow> string" where
  "Utoa n = (if n < 10 then [hex_digit n] else Utoa (n div 10) @ [hex_digit (n mod 10)])"

declare Utoa.simps [simp del]

definition Itoa :: "int \<Rightarrow> string" where
  "Itoa i = (if i < 0 then CHR ''-'' # Utoa (nat (- i)) else Utoa (nat i))"

subsection \<open>Pharmacies from CSV\<close>

definition processPharmaciesBatch :: "Pharmacy list \<Rightarrow> world \<Rightarrow> error \<times> world" where
  "processPharmaciesBatch ps w =
     (case BatchCreatePharmacies ps w of
        (Some err, w1) \<Rightarrow> (Some (''failed to batch create pharmacies: '' @ err), w1)
      | (None, w1) \<Rightarrow>
          (None,
           foldl (\<lambda>w' p. LogEvent ''pharmacy_loaded''
                            [(''npi'', VString (Pharmacy_NPI p)),
                             (''chain'', VString (Pharmacy_Chain p))] w') w1 ps))"

text \<open>The reader has reported the end of the file: the rest of the batch goes out.\<close>

definition csv_eof :: "Pharmacy list \<Rightarrow> int \<Rightarrow> world \<Rightarrow> (int \<times> error) \<times> world" where
  "csv_eof batch totalLoaded w =
     (if 0 < length batch
      then (case processPharmaciesBatch batch w of
              (Some err, w1) \<Rightarrow>
                ((totalLoaded, Some (''failed to process final batch: '' @ err)), w1)
            | (None, w1) \<Rightarrow> ((totalLoaded + int (length batch), None), w1))
      else ((totalLoaded, None), w))"

text \<open>
  The loop of \<open>loadPharmaciesFromCSV\<close> over the reads still to come; \<open>k\<close> is the
  reader's \<open>FieldsPerRecord\<close>.  The end of the list is the reader's \<open>io.EOF\<close>; the
  loop tells the end by the text of the error, so any error that prints as \<open>EOF\<close>
  ends it too.
\<close>

fun csv_loop ::
  "LoaderService \<Rightarrow> string \<Rightarrow> nat \<Rightarrow> CsvRead list \<Rightarrow> Pharmacy list \<Rightarrow> int \<Rightarrow> int \<Rightarrow> world \<Rightarrow>
   (int \<times> error) \<times> world" where
  "csv_loop ls filename k [] batch totalLoaded lineNumber w = csv_eof batch totalLoaded w"
| "csv_loop ls filename k (rd # rest) batch totalLoaded lineNumber w =
     (case csv_Read k rd of
        (Inl err, k1) \<Rightarrow>
          if err = ''EOF'' then csv_eof batch totalLoaded w
          else csv_loop ls filename k1 rest batch totalLoaded (lineNumber + 1)
                 (log_Printf ''Error reading line %d in %s: %v''
                    [I (lineNumber + 1), S filename, S err] w)
      | (Inr cols, k1) \<Rightarrow>
          if length cols < 2
          then csv_loop ls filename k1 rest batch totalLoaded (lineNumber + 1)
                 (log_Printf ''Skipping invalid record at line %d: %v''
                    [I (lineNumber + 1), L cols] w)
          else
            (let pharmacy = \<lparr>Pharmacy_ID = 0, Pharmacy_NPI = TrimSpace (cols ! 1),
                             Pharmacy_Chain = TrimSpace (cols ! 0)\<rparr>
             in case ValidateNPI (Pharmacy_NPI pharmacy) of
                  Some err \<Rightarrow>
                    csv_loop ls filename k1 rest batch totalLoaded (lineNumber + 1)
                      (log_Printf ''%v'' [S err] w)
                | None \<Rightarrow>
                    if batchSize ls \<le> int (length (batch @ [pharmacy]))
                    then (case processPharmaciesBatch (batch @ [pharmacy]) w of
                            (Some err, w1) \<Rightarrow>
                              ((totalLoaded,
                                Some (''failed to process batch at line '' @
                                      Itoa (lineNumber + 1) @ '': '' @ err)), w1)
                          | (None, w1) \<Rightarrow>
                              csv_loop ls filename k1 rest []
                                (totalLoaded + int (length (batch @ [pharmacy])))
                                (lineNumber + 1) w1)
                    else csv_loop ls filename k1 rest (batch @ [pharmacy]) totalLoaded
                           (lineNumber + 1) w))"

definition loadPharmaciesFromCSV ::
  "LoaderService \<Rightarrow> OS \<Rightarrow> string \<Rightarrow> world \<Rightarrow> (int \<times> error) \<times> world" where
  "loadPharmaciesFromCSV ls os filename w =
     (case Open_csv os filename of
        Inl err \<Rightarrow> ((0, Some (''failed to open CSV file: '' @ err)), w)
      | Inr [] \<Rightarrow> ((0, Some ''failed to read header: EOF''), w)
      | Inr (header # rest) \<Rightarrow>
          (case csv_Read 0 header of
             (Inl err, k) \<Rightarrow> ((0, Some (''failed to read header: '' @ err)), w)
           | (Inr _, k) \<Rightarrow> csv_loop ls filename k rest [] 0 1 w))"

text \<open>
  The loop of \<open>LoadPharmaciesFromData\<close> over the files: a file that ends in an error
  is logged and adds nothing to the tally, whatever it had loaded before the error.
\<close>

fun load_pharmacy_files ::
  "LoaderService \<Rightarrow> OS \<Rightarrow> string list \<Rightarrow> int \<Rightarrow> world \<Rightarrow> int \<times> world" where
  "load_pharmacy_files ls os [] totalLoaded w = (totalLoaded, w)"
| "load_pharmacy_files ls os (file # files) totalLoaded w =
     (case loadPharmaciesFromCSV ls os file w of
        ((loaded, Some err), w1) \<Rightarrow>
          load_pharmacy_files ls os files totalLoaded
            (log_Printf ''Failed to load pharmacies from %s: %v'' [S file, S err] w1)
      | ((loaded, None), w1) \<Rightarrow> load_pharmacy_files ls os files (totalLoaded + loaded) w1)"

text \<open>
  The check both loaders start with: \<open>True\<close> when the count came back and is
  positive, which ends the load; a count that fails is logged and the load goes on.
  \<open>name\<close> holds the arguments the generic loader's lines print before the last one.
\<close>

definition already_loaded ::
  "(world \<Rightarrow> (string + int) \<times> world) \<Rightarrow> string \<Rightarrow> string \<Rightarrow> Arg list \<Rightarrow> world \<Rightarrow> bool \<times> world" where
  "already_loaded countFunc warning skipping name w =
     (case countFunc w of
        (Inl err, w1) \<Rightarrow> (False, log_Printf warning (name @ [S err]) w1)
      | (Inr count, w1) \<Rightarrow>
          if 0 < count then (True, log_Printf skipping (name @ [I count]) w1) else (False, w1))"

definition LoadPharmaciesFromData :: "LoaderService \<Rightarrow> OS \<Rightarrow> string \<Rightarrow> world \<Rightarrow> error \<times> world" where
  "LoadPharmaciesFromData ls os dataDir w =
     (case already_loaded CountPharmacies ''Warning: Failed to check pharmacy count: %v''
             ''Pharmacies already loaded (%d records found), skipping data loading'' [] w of
        (True, w1) \<Rightarrow> (None, w1)
      | (False, w1) \<Rightarrow>
          (let pharmaciesDir = Join os dataDir ''pharmacies'' in
           if Stat_IsNotExist os pharmaciesDir
           then (Some (''pharmacies directory not found: '' @ pharmaciesDir), w1)
           else
             (case Glob os (Join os pharmaciesDir ''*.csv'') of
                Inl err \<Rightarrow> (Some (''failed to glob pharmacy files: '' @ err), w1)
              | Inr files \<Rightarrow>
                  if length files = 0
                  then (Some (''no pharmacy CSV files found in '' @ pharmaciesDir), w1)
                  else
                    (case load_pharmacy_files ls os files 0 w1 of
                       (totalLoaded, w2) \<Rightarrow>
                         if totalLoaded = 0
                         then (Some ''no pharmacies loaded from data directory'', w2)
                         else (None,
                               log_Printf
                                 ''Successfully loaded %d pharmacies from data directory''
                                 [I totalLoaded] w2)))))"

subsection \<open>Claims and reversals from JSON\<close>

definition loadJSONFromFile :: "'a JsonFile \<Rightarrow> string + 'a list" where
  "loadJSONFromFile file =
     (case file of
        ReadError err \<Rightarrow> Inl (''failed to read file: '' @ err)
      | ParseError err \<Rightarrow> Inl (''failed to parse JSON: '' @ err)
      | Items items \<Rightarrow> Inr items)"

text \<open>The number of workers; it bears on the order of arrival only.\<close>

definition maxWorkers :: "string list \<Rightarrow> int" where
  "maxWorkers files =
     (if int (length files) < MaxConcurrentWorkers then int (length files)
      else MaxConcurrentWorkers)"

text \<open>
  The consumer on one file's data: every item joins the batch, and a full batch is
  processed; a batch that fails is logged and dropped.
\<close>

fun add_items ::
  "LoaderService \<Rightarrow> ('a list \<Rightarrow> world \<Rightarrow> error \<times> world) \<Rightarrow> string \<Rightarrow> 'a list \<Rightarrow> 'a list \<Rightarrow> int \<Rightarrow>
   world \<Rightarrow> ('a list \<times> int) \<times> world" where
  "add_items ls batchProcessor dataTypeName [] batch totalItems w = ((batch, totalItems), w)"
| "add_items ls batchProcessor dataTypeName (item # items) batch totalItems w =
     (if batchSize ls \<le> int (length (batch @ [item]))
      then (case batchProcessor (batch @ [item]) w of
              (Some err, w1) \<Rightarrow>
                add_items ls batchProcessor dataTypeName items [] totalItems
                  (log_Printf ''Warning: Failed to process %s batch: %v''
                     [S dataTypeName, S err] w1)
            | (None, w1) \<Rightarrow>
                add_items ls batchProcessor dataTypeName items []
                  (totalItems + int (length (batch @ [item])))
                  (log_Printf ''Processed batch of %d %s''
                     [I (int (length (batch @ [item]))), S dataTypeName] w1))
      else add_items ls batchProcessor dataTypeName items (batch @ [item]) totalItems w)"

text \<open>
  The consumer over the files in their order of arrival.  The worker's line for a
  file is put right before the consumer takes the file's result.
\<close>

fun consume ::
  "LoaderService \<Rightarrow> OS \<Rightarrow> (string \<Rightarrow> string + 'a list) \<Rightarrow> ('a list \<Rightarrow> world \<Rightarrow> error \<times> world) \<Rightarrow> string \<Rightarrow>
   string list \<Rightarrow> 'a list \<Rightarrow> int \<Rightarrow> world \<Rightarrow> ('a list \<times> int) \<times> world" where
  "consume ls os fileLoader batchProcessor dataTypeName [] batch totalItems w =
     ((batch, totalItems), w)"
| "consume ls os fileLoader batchProcessor dataTypeName (filename # arriving) batch totalItems w =
     (case fileLoader filename of
        Inl err \<Rightarrow>
          consume ls os fileLoader batchProcessor dataTypeName arriving batch totalItems
            (log_Printf ''Warning: Failed to load %s from %s: %v''
               [S dataTypeName, S filename, S err] w)
      | Inr items \<Rightarrow>
          (case add_items ls batchProcessor dataTypeName items batch totalItems
                  (log_Printf ''Loaded %d %s from %s''
                     [I (int (length items)), S dataTypeName, S (Base os filename)] w) of
             ((batch1, totalItems1), w1) \<Rightarrow>
               consume ls os fileLoader batchProcessor dataTypeName arriving batch1 totalItems1 w1))"

definition loadDataFromFiles ::
  "LoaderService \<Rightarrow> OS \<Rightarrow> string \<Rightarrow> string \<Rightarrow> string \<Rightarrow> (world \<Rightarrow> (string + int) \<times> world) \<Rightarrow>
   (string \<Rightarrow> string + 'a list) \<Rightarrow> ('a list \<Rightarrow> world \<Rightarrow> error \<times> world) \<Rightarrow> string \<Rightarrow> world \<Rightarrow>
   error \<times> world" where
  "loadDataFromFiles ls os dataDir subDir filePattern countFunc fileLoader batchProcessor
     dataTypeName w =
     (case already_loaded countFunc ''Warning: Failed to check %s count: %v''
             ''%s already loaded (%d records found), skipping data loading''
             [S dataTypeName] w of
        (True, w1) \<Rightarrow> (None, w1)
      | (False, w1) \<Rightarrow>
          (let targetDir = Join os dataDir subDir in
           case Glob os (Join os targetDir filePattern) of
             Inl err \<Rightarrow> (Some (''failed to read '' @ dataTypeName @ '' directory: '' @ err), w1)
           | Inr files \<Rightarrow>
               if length files = 0
               then (None, log_Printf ''No %s files found in %s'' [S dataTypeName, S targetDir] w1)
               else
                 (case consume ls os fileLoader batchProcessor dataTypeName (arrival os files) [] 0
                         (log_Printf ''Found %d %s files to load''
                            [I (int (length files)), S dataTypeName] w1) of
                    ((batch, totalItems), w2) \<Rightarrow>
                      (case (if 0 < length batch
                             then (case batchProcessor batch w2 of
                                     (Some err, w3) \<Rightarrow>
                                       (totalItems,
                                        log_Printf ''Warning: Failed to process final %s batch: %v''
                                          [S dataTypeName, S err] w3)
                                   | (None, w3) \<Rightarrow>
                                       (totalItems + int (length batch),
                                        log_Printf ''Processed final batch of %d %s''
                                          [I (int (length batch)), S dataTypeName] w3))
                             else (totalItems, w2)) of
                         (totalItems1, w4) \<Rightarrow>
                           (None,
                            log_Printf ''Successfully loaded %d total %s from %d files''
                              [I totalItems1, S dataTypeName, I (int (length files))] w4)))))"

definition processClaimsBatch :: "Claim list \<Rightarrow> world \<Rightarrow> error \<times> world" where
  "processClaimsBatch cs w =
     (case BatchCreateClaims cs w of
        (Some err, w1) \<Rightarrow> (Some (''failed to batch create claims: '' @ err), w1)
      | (None, w1) \<Rightarrow>
          (None,
           foldl (\<lambda>w' c. LogEvent ''claim_loaded''
                            [(''id'', VUuid (Claim_ID c)), (''ndc'', VString (Claim_NDC c)),
                             (''npi'', VString (Claim_NPI c)),
                             (''quantity'', VNumber (Claim_Quantity c)),
                             (''price'', VNumber (Claim_Price c))] w') w1 cs))"

definition processReversalsBatch :: "Reversal list \<Rightarrow> world \<Rightarrow> error \<times> world" where
  "processReversalsBatch rs w =
     (case BatchCreateReversals rs w of
        (Some err, w1) \<Rightarrow> (Some (''failed to batch create reversals: '' @ err), w1)
      | (None, w1) \<Rightarrow>
          (None,
           foldl (\<lambda>w' r. LogEvent ''reversal_loaded''
                            [(''id'', VUuid (Reversal_ID r)),
                             (''claim_id'', VUuid (Reversal_ClaimID r))] w') w1 rs))"

definition LoadClaimsFromData :: "LoaderService \<Rightarrow> OS \<Rightarrow> string \<Rightarrow> world \<Rightarrow> error \<times> world" where
  "LoadClaimsFromData ls os dataDir w =
     loadDataFromFiles ls os dataDir ''claims'' ''*.json'' CountClaims
       (\<lambda>filename. loadJSONFromFile (ReadFile_claims os filename)) processClaimsBatch
       ''claims'' w"

definition LoadReversalsFromData :: "LoaderService \<Rightarrow> OS \<Rightarrow> string \<Rightarrow> world \<Rightarrow> error \<times> world" where
  "LoadReversalsFromData ls os dataDir w =
     loadDataFromFiles ls os dataDir ''reverts'' ''*.json'' CountReversals
       (\<lambda>filename. loadJSONFromFile (ReadFile_reversals os filename)) processReversalsBatch
       ''reversals'' w"

section \<open>The vocabulary of the properties\<close>

text \<open>
  The pharmacies handed to \<open>BatchCreatePharmacies\<close> so far, batch after batch: what
  the CSV loader has accumulated for insertion.
\<close>

fun batch_of :: "Call \<Rightarrow> Pharmacy list" where
  "batch_of (CallBatchCreatePharmacies ps) = ps"
| "batch_of _ = []"

definition submitted :: "world \<Rightarrow> Pharmacy list" where
  "submitted w = concat (map batch_of (calls w))"

text \<open>
  A row of a pharmacy file whose header has \<open>k\<close> columns is valid when it parses, has
  the header's number of columns, at least two of them, and a provider identifier
  that passes \<open>ValidateNPI\<close> once trimmed; for the header \<open>chain,npi\<close> that is a row of
  exactly two columns with a valid identifier.  \<open>row_pharmacy\<close> is the record such a
  row stands for.
\<close>

definition valid_row :: "nat \<Rightarrow> CsvRead \<Rightarrow> bool" where
  "valid_row k rd =
     (case rd of
        CsvError _ \<Rightarrow> False
      | CsvRecord cols \<Rightarrow>
          length cols = k \<and> 2 \<le> length cols \<and> ValidateNPI (TrimSpace (cols ! 1)) = None)"

definition row_pharmacy :: "CsvRead \<Rightarrow> Pharmacy" where
  "row_pharmacy rd =
     (case rd of
        CsvError _ \<Rightarrow> \<lparr>Pharmacy_ID = 0, Pharmacy_NPI = [], Pharmacy_Chain = []\<rparr>
      | CsvRecord cols \<Rightarrow>
          \<lparr>Pharmacy_ID = 0, Pharmacy_NPI = TrimSpace (cols ! 1),
           Pharmacy_Chain = TrimSpace (cols ! 0)\<rparr>)"

text \<open>
  The batching rule: the rows join the batch one by one, and the batch goes out as
  soon as it has reached the configured size; what is left at the end of the file
  goes out last.  \<open>chunk b batch xs\<close> are the batches made of a batch in the making
  and the rows \<open>xs\<close> still to join it.
\<close>

fun chunk :: "int \<Rightarrow> Pharmacy list \<Rightarrow> Pharmacy list \<Rightarrow> Pharmacy list list" where
  "chunk b batch [] = (if batch = [] then [] else [batch])"
| "chunk b batch (x # xs) =
     (if b \<le> int (length (batch @ [x])) then (batch @ [x]) # chunk b [] xs
      else chunk b (batch @ [x]) xs)"

text \<open>
  Batches handed to \<open>processPharmaciesBatch\<close> one after another, up to the first one
  it refuses: \<open>True\<close> when no batch insert has failed, and the state reached.
\<close>

fun process_all :: "Pharmacy list list \<Rightarrow> world \<Rightarrow> bool \<times> world" where
  "process_all [] w = (True, w)"
| "process_all (batch # batches) w =
     (case processPharmaciesBatch batch w of
        (Some err, w1) \<Rightarrow> (False, w1)
      | (None, w1) \<Rightarrow> process_all batches w1)"

section \<open>Sample states\<close>

text \<open>
  A store with one pharmacy and one claim, not reversed, whose database answers every
  statement; a \<open>POST /reversal\<close> for that claim.
\<close>

definition sample_world :: world where
  "sample_world =
     \<lparr>pharmacies = [\<lparr>Pharmacy_ID = 1, Pharmacy_NPI = ''1234567890'', Pharmacy_Chain = ''health''\<rparr>],
      claims = [\<lparr>Claim_ID = 1, Claim_NDC = ''12345678901'', Claim_Quantity = 30,
                 Claim_NPI = ''1234567890'', Claim_Price = 2599 / 100, Claim_Timestamp = 0\<rparr>],
      reversals = [], serial = 2, faults = [], rand = (\<lambda>n. 100 + of_nat n), drawn = 0,
      clock = 7, calls = [], events = [], stdlog = []\<rparr>"

definition sample_reversal :: Request where
  "sample_reversal =
     \<lparr>Request_Method = ''POST'',
      Request_AsClaimRequest =
        Inr \<lparr>ClaimRequest_NDC = [], ClaimRequest_Quantity = 0, ClaimRequest_NPI = [],
             ClaimRequest_Price = 0\<rparr>,
      Request_AsReversalRequest =
        Inr \<lparr>ReversalRequest_ClaimID = 1, ReversalRequest_Reason = ''entered twice''\<rparr>\<rparr>"

text \<open>The same store with its tables empty.\<close>

definition empty_world :: world where
  "empty_world = sample_world\<lparr>pharmacies := [], claims := [], reversals := []\<rparr>"

text \<open>
  A data directory \<open>data\<close>.  The pharmacy file \<open>p.csv\<close>, the one the pattern finds,
  has one valid row, a row of three columns and a row with a short identifier;
  \<open>q.csv\<close> has two valid rows, the first with a chain the schema refuses;
  \<open>wide.csv\<close> has a header of three columns.  \<open>r.json\<close> holds two reversals of the
  same claim.
\<close>

definition sample_os :: OS where
  "sample_os =
     \<lparr>Join = (\<lambda>a b. a @ ''/'' @ b),
      Base = (\<lambda>path. rev (takeWhile (\<lambda>c. c \<noteq> CHR ''/'') (rev path))),
      Stat_IsNotExist = (\<lambda>path. path \<noteq> ''data/pharmacies''),
      Glob = (\<lambda>pattern.
        if pattern = ''data/pharmacies/*.csv'' then Inr [''data/pharmacies/p.csv'']
        else if pattern = ''data/reverts/*.json'' then Inr [''data/reverts/r.json'']
        else Inr []),
      Open_csv = (\<lambda>path.
        if path = ''data/pharmacies/p.csv''
        then Inr [CsvRecord [''chain'', ''npi''],
                  CsvRecord [''saint'', ''1112223334''],
                  CsvRecord [''doctor'', ''5556667778'', ''Lyon''],
                  CsvRecord [''health'', ''12345'']]
        else if path = ''data/pharmacies/q.csv''
        then Inr [CsvRecord [''chain'', ''npi''],
                  CsvRecord [''unknown'', ''1112223334''],
                  CsvRecord [''saint'', ''5556667778'']]
        else if path = ''data/pharmacies/wide.csv''
        then Inr [CsvRecord [''chain'', ''npi'', ''city''],
                  CsvRecord [''saint'', ''1112223334'', ''Lyon''],
                  CsvRecord [''doctor'', ''5556667778''],
                  CsvRecord [''health'', ''12345'', ''Oslo'']]
        else Inl ''no such file or directory''),
      ReadFile_claims = (\<lambda>path. ReadError ''no such file or directory''),
      ReadFile_reversals = (\<lambda>path.
        if path = ''data/reverts/r.json''
        then Items [\<lparr>Reversal_ID = 10, Reversal_ClaimID = 1, Reversal_Timestamp = 3\<rparr>,
                    \<lparr>Reversal_ID = 11, Reversal_ClaimID = 1, Reversal_Timestamp = 4\<rparr>]
        else ReadError ''no such file or directory''),
      arrival = (\<lambda>files. files)\<rparr>"

text \<open>An operating system with no data directory at all.\<close>

definition bare_os :: OS where
  "bare_os =
     \<lparr>Join = (\<lambda>a b. a @ ''/'' @ b),
      Base = (\<lambda>path. rev (takeWhile (\<lambda>c. c \<noteq> CHR ''/'') (rev path))),
      Stat_IsNotExist = (\<lambda>path. True),
      Glob = (\<lambda>pattern. Inr []),
      Open_csv = (\<lambda>path. Inl ''no such file or directory''),
      ReadFile_claims = (\<lambda>path. ReadError ''no such file or directory''),
      ReadFile_reversals = (\<lambda>path. ReadError ''no such file or directory''),
      arrival = (\<lambda>files. files)\<rparr>"

section \<open>Properties of the validator\<close>

text \<open>
  A string of at most 18 bytes is within the range of \<open>Atoi\<close> as soon as it is
  well formed, so for the lengths the validator lets through \<open>Atoi\<close> succeeds
  exactly on digits with an optional sign in front.
\<close>

lemma digits_value_bound:
  "list_all is_digit ds \<Longrightarrow> digits_value n ds < (n + 1) * 10 ^ length ds"
proof (induction ds arbitrary: n)
  case Nil
  then show ?case by simp
next
  case (Cons c cs)
  then have cs: "list_all is_digit cs" and "is_digit c"
    by simp_all
  then have d: "(of_char c :: nat) - 48 \<le> 9"
    unfolding is_digit_def by arith
  have "digits_value n (c # cs) < (n * 10 + (of_char c - 48) + 1) * 10 ^ length cs"
    using Cons.IH [OF cs] by simp
  also have "\<dots> \<le> ((n + 1) * 10) * 10 ^ length cs"
    using d by (intro mult_right_mono) auto
  finally show ?case by (simp add: algebra_simps)
qed

lemma digits_value_int64:
  assumes "list_all is_digit ds" "length ds \<le> 18"
  shows "int (digits_value 0 ds) < 2 ^ 63"
proof -
  have "digits_value 0 ds < 10 ^ length ds"
    using digits_value_bound [OF assms(1), of 0] by simp
  also have "\<dots> \<le> (10::nat) ^ 18"
    using assms(2) by (intro power_increasing) auto
  also have "\<dots> < 2 ^ 63" by simp
  finally have "digits_value 0 ds < 2 ^ 63" .
  then have "int (digits_value 0 ds) < int (2 ^ 63)" by (simp only: of_nat_less_iff)
  then show ?thesis by simp
qed

lemma Atoi_short:
  assumes "length s \<le> 18"
  shows "(\<exists>n. Atoi s = Inr n) \<longleftrightarrow>
         (if has_sign s then tl s \<noteq> [] \<and> list_all is_digit (tl s)
          else s \<noteq> [] \<and> list_all is_digit s)"
proof (cases "has_sign s")
  case True
  have "length (tl s) \<le> 18" using assms by simp
  then have "list_all is_digit (tl s) \<Longrightarrow> int (digits_value 0 (tl s)) < 2 ^ 63"
    by (rule digits_value_int64 [rotated])
  then show ?thesis using True
    by (auto simp: Atoi_def Let_def)
next
  case False
  have "list_all is_digit s \<Longrightarrow> int (digits_value 0 s) < 2 ^ 63"
    using assms by (rule digits_value_int64 [rotated])
  moreover have "hd s \<noteq> CHR ''-''" if "s \<noteq> []"
    using False that by (cases s) (auto simp: has_sign_def)
  ultimately show ?thesis using False
    by (auto simp: Atoi_def Let_def)
qed

lemma ValidateNPI_accepts:
  "ValidateNPI npi = None \<longleftrightarrow>
     length npi = 10 \<and> (if has_sign npi then list_all is_digit (tl npi) else list_all is_digit npi)"
proof (cases "length npi = 10")
  case True
  have "tl npi \<noteq> []"
  proof
    assume "tl npi = []"
    then have "length (tl npi) = 0" by (simp del: length_tl)
    then show False using True by simp
  qed
  with True have "length npi \<le> 18" "npi \<noteq> []" "tl npi \<noteq> []" by auto
  then show ?thesis
    using Atoi_short [of npi] True
    by (cases "Atoi npi") (auto simp: ValidateNPI_def)
next
  case False
  then show ?thesis by (simp add: ValidateNPI_def)
qed

lemma ValidateNDC_accepts:
  "ValidateNDC ndc = None \<longleftrightarrow>
     9 \<le> length ndc \<and> length ndc \<le> 11 \<and>
     (if has_sign ndc then list_all is_digit (tl ndc) else list_all is_digit ndc)"
proof (cases "9 \<le> length ndc \<and> length ndc \<le> 11")
  case True
  have "tl ndc \<noteq> []"
  proof
    assume "tl ndc = []"
    then have "length (tl ndc) = 0" by (simp del: length_tl)
    then show False using True by simp
  qed
  with True have "length ndc \<le> 18" "ndc \<noteq> []" "tl ndc \<noteq> []" by auto
  then show ?thesis
    using Atoi_short [of ndc] True
    by (cases "Atoi ndc") (auto simp: ValidateNDC_def)
next
  case False
  then show ?thesis by (auto simp add: ValidateNDC_def)
qed

lemma ValidateClaimRequest_accepts:
  "ValidateClaimRequest r = None \<longleftrightarrow>
     ValidateNDC (ClaimRequest_NDC r) = None \<and> ValidateNPI (ClaimRequest_NPI r) = None \<and>
     0 < ClaimRequest_Quantity r \<and> 0 \<le> ClaimRequest_Price r"
  by (auto simp: ValidateClaimRequest_def ValidateQuantity_def ValidatePrice_def split: option.splits)

lemma ValidateClaimRequest_first_failure:
  "ValidateClaimRequest r =
     (if ValidateNDC (ClaimRequest_NDC r) \<noteq> None then ValidateNDC (ClaimRequest_NDC r)
      else if ValidateNPI (ClaimRequest_NPI r) \<noteq> None then ValidateNPI (ClaimRequest_NPI r)
      else if ClaimRequest_Quantity r \<le> 0 then Some ''invalid quantity: must be greater than 0''
      else if ClaimRequest_Price r < 0 then Some ''invalid price: must be non-negative''
      else None)"
  by (auto simp: ValidateClaimRequest_def ValidateQuantity_def ValidatePrice_def split: option.splits)


text \<open>
  C3.  The claim: \<open>ValidateClaimRequest\<close> checks drug code, provider identifier,
  quantity and price in this order and returns the first failure; it fails exactly
  when the drug code is not 9 to 11 digits, the provider identifier is not 10
  digits, the quantity is not positive or the price is negative, so that a string of
  the right length with a non-digit in it, such as a leading sign, is rejected.
  The order and the two numeric rules hold (\<open>ValidateClaimRequest_first_failure\<close>,
  \<open>ValidateClaimRequest_accepts\<close>), but the test for digits is \<open>Atoi\<close>, which takes
  a sign: the request with drug code \<open>+12345678\<close> and provider identifier
  \<open>+123456789\<close> passes, against the validator's own messages
  (\<open>must be 9-11 digits\<close>, \<open>must be exactly 10 digits\<close>).
\<close>

theorem ValidateClaimRequest_signed_passes:
  "ValidateClaimRequest
     \<lparr>ClaimRequest_NDC = ''+12345678'', ClaimRequest_Quantity = 1,
      ClaimRequest_NPI = ''+123456789'', ClaimRequest_Price = 0\<rparr> = None"
  by (simp add: ValidateClaimRequest_def ValidateNDC_def ValidateNPI_def ValidateQuantity_def
      ValidatePrice_def Atoi_def has_sign_def is_digit_def)

section \<open>Properties of the repository\<close>

lemmas store_defs =
  roundtrip_def entered_def uuid_New_def LogEvent_def log_Printf_def rollback_def
  GetPharmacyByNPI_def GetClaimByID_def CreateClaim_def ExecuteInTransaction_def reverse_tx_def
  Postgres_ReverseClaim_def batchInsert_def countRows_def

lemma roundtrip_answered:
  "next_answered w \<Longrightarrow> roundtrip w = (None, w\<lparr>faults := tl (faults w)\<rparr>)"
  by (cases "faults w") (simp_all add: next_answered_def roundtrip_def)

lemma next_answered_entered [simp]: "next_answered (entered c w) = next_answered w"
  by (simp add: next_answered_def entered_def)

lemma countRows_answered:
  "next_answered w \<Longrightarrow>
     countRows t (entered c w) =
       (Inr (int (table_size t w)), w\<lparr>faults := tl (faults w), calls := calls w @ [c]\<rparr>)"
  by (cases t) (simp_all add: countRows_def roundtrip_answered, simp_all add: entered_def)

text \<open>
  The transactional path keeps the invariant: whatever the database does on the way,
  \<open>ReverseClaim\<close> never leaves two reversals of one claim where there were none.
\<close>

lemma Postgres_ReverseClaim_one_reversal:
  "distinct (map Reversal_ClaimID (reversals w)) \<Longrightarrow>
   distinct (map Reversal_ClaimID (reversals (snd (Postgres_ReverseClaim claimID reason w))))"
  by (auto simp: store_defs split: list.splits option.splits sum.splits if_splits prod.splits)

text \<open>
  The bulk path does not: with the database answering, two reversals of an existing
  claim under two fresh ids are both stored.
\<close>

lemma BatchCreateReversals_leaves_both:
  assumes "faults w = []" "cid \<in> set (map Claim_ID (claims w))" "r1 \<noteq> r2"
    and "r1 \<notin> set (map Reversal_ID (reversals w))" "r2 \<notin> set (map Reversal_ID (reversals w))"
  shows "fst (BatchCreateReversals
                [\<lparr>Reversal_ID = r1, Reversal_ClaimID = cid, Reversal_Timestamp = t1\<rparr>,
                 \<lparr>Reversal_ID = r2, Reversal_ClaimID = cid, Reversal_Timestamp = t2\<rparr>] w) = None"
    and "reversals (snd (BatchCreateReversals
                [\<lparr>Reversal_ID = r1, Reversal_ClaimID = cid, Reversal_Timestamp = t1\<rparr>,
                 \<lparr>Reversal_ID = r2, Reversal_ClaimID = cid, Reversal_Timestamp = t2\<rparr>] w)) =
           reversals w @
             [\<lparr>Reversal_ID = r1, Reversal_ClaimID = cid, Reversal_Timestamp = t1\<rparr>,
              \<lparr>Reversal_ID = r2, Reversal_ClaimID = cid, Reversal_Timestamp = t2\<rparr>]"
  using assms by (auto simp: BatchCreateReversals_def store_defs)

text \<open>
  C1.  The claim: in every reachable state a claim has at most one reversal, because
  a uniqueness constraint on \<open>reversals.claim_id\<close> backs every insertion path, so
  that loading two reversals with distinct ids and the same \<open>claim_id\<close> cannot leave
  two reversals of one claim.  The migration declares the primary key on \<open>id\<close> and
  a plain index on \<open>claim_id\<close>, so \<open>ON CONFLICT DO NOTHING\<close> forgives a repeated
  \<open>id\<close> only: from a state where no claim is reversed, \<open>BatchCreateReversals\<close> on two
  such records succeeds and leaves both rows.
\<close>

theorem BatchCreateReversals_two_reversals_of_one_claim:
  "distinct (map Reversal_ClaimID (reversals sample_world)) \<and>
   fst (BatchCreateReversals
          [\<lparr>Reversal_ID = 10, Reversal_ClaimID = 1, Reversal_Timestamp = 3\<rparr>,
           \<lparr>Reversal_ID = 11, Reversal_ClaimID = 1, Reversal_Timestamp = 4\<rparr>] sample_world) = None \<and>
   map Reversal_ClaimID
     (reversals (snd (BatchCreateReversals
        [\<lparr>Reversal_ID = 10, Reversal_ClaimID = 1, Reversal_Timestamp = 3\<rparr>,
         \<lparr>Reversal_ID = 11, Reversal_ClaimID = 1, Reversal_Timestamp = 4\<rparr>] sample_world))) =
     [1, 1]"
  by (simp add: BatchCreateReversals_def store_defs sample_world_def)

section \<open>Properties of the claims service\<close>

lemma GetPharmacyByNPI_absent:
  assumes "next_answered w" "npi \<notin> set (map Pharmacy_NPI (pharmacies w))"
  shows "GetPharmacyByNPI npi w =
           (Inr None, w\<lparr>faults := tl (faults w), calls := calls w @ [CallGetPharmacyByNPI npi]\<rparr>)"
proof -
  have "find (\<lambda>p. Pharmacy_NPI p = npi) (pharmacies w) = None"
    using assms(2) by (auto simp: find_None_iff)
  then show ?thesis
    using assms(1) by (simp add: GetPharmacyByNPI_def roundtrip_answered) (simp add: entered_def)
qed

text \<open>
  Whatever error \<open>SubmitClaim\<close> returns, and whatever the database did on the way,
  the three tables are as they were.
\<close>

lemma SubmitClaim_error_keeps_tables:
  "ClaimsService_SubmitClaim request w = (Inl err, w') \<Longrightarrow>
     pharmacies w' = pharmacies w \<and> claims w' = claims w \<and> reversals w' = reversals w"
  by (auto simp: ClaimsService_SubmitClaim_def ClaimsService_ValidateClaim_def
        GetPharmacyByNPI_def CreateClaim_def uuid_New_def Let_def roundtrip_def entered_def
      split: list.splits option.splits sum.splits if_splits prod.splits)

text \<open>
  C4.  A request that fails validation makes \<open>SubmitClaim\<close> return the validator's
  error and leaves the whole state as it was: no repository method is entered, nothing
  is stored, no event is written.  A request that passes validation and whose
  provider identifier is the NPI of no pharmacy, the lookup being answered, makes it
  return the not-found error; the only repository method entered is the lookup, and
  the tables and the audit events are as they were.
\<close>

theorem SubmitClaim_failures_persist_nothing:
  "(ValidateClaimRequest request = Some err \<longrightarrow>
      ClaimsService_SubmitClaim request w = (Inl err, w)) \<and>
   (ValidateClaimRequest request = None \<and> next_answered w \<and>
    ClaimRequest_NPI request \<notin> set (map Pharmacy_NPI (pharmacies w)) \<longrightarrow>
      (\<exists>w'. ClaimsService_SubmitClaim request w =
              (Inl (''pharmacy with NPI '' @ ClaimRequest_NPI request @ '' not found''), w') \<and>
            pharmacies w' = pharmacies w \<and> claims w' = claims w \<and> reversals w' = reversals w \<and>
            events w' = events w \<and>
            calls w' = calls w @ [CallGetPharmacyByNPI (ClaimRequest_NPI request)]))"
  by (simp add: ClaimsService_SubmitClaim_def ClaimsService_ValidateClaim_def
      GetPharmacyByNPI_absent)

theorem SubmitClaim_failures_persist_nothing_witness:
  "ClaimsService_SubmitClaim
     \<lparr>ClaimRequest_NDC = ''123'', ClaimRequest_Quantity = 30, ClaimRequest_NPI = ''1234567890'',
      ClaimRequest_Price = 1\<rparr> sample_world =
     (Inl ''invalid NDC format: must be 9-11 digits'', sample_world) \<and>
   (\<exists>w'. ClaimsService_SubmitClaim
            \<lparr>ClaimRequest_NDC = ''12345678901'', ClaimRequest_Quantity = 30,
             ClaimRequest_NPI = ''9999999999'', ClaimRequest_Price = 1\<rparr> sample_world =
            (Inl ''pharmacy with NPI 9999999999 not found'', w') \<and>
          pharmacies w' = pharmacies sample_world \<and> claims w' = claims sample_world \<and>
          reversals w' = reversals sample_world \<and> events w' = events sample_world \<and>
          calls w' = calls sample_world @ [CallGetPharmacyByNPI ''9999999999''])"
proof -
  have 1: "ValidateClaimRequest
             \<lparr>ClaimRequest_NDC = ''123'', ClaimRequest_Quantity = 30,
              ClaimRequest_NPI = ''1234567890'', ClaimRequest_Price = 1\<rparr> =
           Some ''invalid NDC format: must be 9-11 digits''"
    by (simp add: ValidateClaimRequest_def ValidateNDC_def)
  have 2: "ValidateClaimRequest
             \<lparr>ClaimRequest_NDC = ''12345678901'', ClaimRequest_Quantity = 30,
              ClaimRequest_NPI = ''9999999999'', ClaimRequest_Price = 1\<rparr> = None"
    by (simp add: ValidateClaimRequest_def ValidateNDC_def ValidateNPI_def ValidateQuantity_def
        ValidatePrice_def Atoi_def has_sign_def is_digit_def)
  have 3: "next_answered sample_world"
    by (simp add: next_answered_def sample_world_def)
  have 4: "''9999999999'' \<notin> set (map Pharmacy_NPI (pharmacies sample_world))"
    by (simp add: sample_world_def)
  show ?thesis
    using SubmitClaim_failures_persist_nothing
            [of "\<lparr>ClaimRequest_NDC = ''123'', ClaimRequest_Quantity = 30,
                  ClaimRequest_NPI = ''1234567890'', ClaimRequest_Price = 1\<rparr>"
                "''invalid NDC format: must be 9-11 digits''" sample_world]
          SubmitClaim_failures_persist_nothing
            [of "\<lparr>ClaimRequest_NDC = ''12345678901'', ClaimRequest_Quantity = 30,
                  ClaimRequest_NPI = ''9999999999'', ClaimRequest_Price = 1\<rparr>" _ sample_world]
          1 2 3 4
    by simp
qed

text \<open>
  C5.  The claim: the result of a successful \<open>ReverseClaim\<close> holds the identifier
  of the new reversal row and a status.  The repository draws that identifier inside
  its transaction and returns an error only, and \<open>ReversalResponse\<close> has a status
  and a \<open>claim_id\<close>: reversing claim 1 of the sample store creates the reversal 100
  and answers with the claim's identifier 1.
\<close>

theorem ReverseClaim_reversal_id_not_returned:
  "fst (ClaimsService_ReverseClaim
          \<lparr>ReversalRequest_ClaimID = 1, ReversalRequest_Reason = ''entered twice''\<rparr>
          sample_world) =
     Inr \<lparr>ReversalResponse_Status = ''claim reversed'', ReversalResponse_ClaimID = 1\<rparr> \<and>
   map Reversal_ID
     (reversals (snd (ClaimsService_ReverseClaim
        \<lparr>ReversalRequest_ClaimID = 1, ReversalRequest_Reason = ''entered twice''\<rparr>
        sample_world))) = [100]"
  by (simp add: ClaimsService_ReverseClaim_def store_defs sample_world_def)

text \<open>
  C5, as amended: the result of every successful \<open>ReverseClaim\<close> is the status
  \<open>claim reversed\<close> together with the identifier of the reversed claim, the one of
  the request.
\<close>

theorem ReverseClaim_returns_claim_id:
  "ClaimsService_ReverseClaim request w = (Inr response, w') \<Longrightarrow>
     response = \<lparr>ReversalResponse_Status = ''claim reversed'',
                 ReversalResponse_ClaimID = ReversalRequest_ClaimID request\<rparr>"
  by (auto simp: ClaimsService_ReverseClaim_def GetClaimByID_def roundtrip_def entered_def
        find_Some_iff
      split: list.splits option.splits sum.splits if_splits prod.splits)

theorem ReverseClaim_returns_claim_id_witness:
  "\<exists>w'. ClaimsService_ReverseClaim
           \<lparr>ReversalRequest_ClaimID = 1, ReversalRequest_Reason = ''entered twice''\<rparr>
           sample_world =
         (Inr \<lparr>ReversalResponse_Status = ''claim reversed'', ReversalResponse_ClaimID = 1\<rparr>, w')"
proof -
  obtain res w' where r: "ClaimsService_ReverseClaim
      \<lparr>ReversalRequest_ClaimID = 1, ReversalRequest_Reason = ''entered twice''\<rparr> sample_world =
      (res, w')"
    by (cases "ClaimsService_ReverseClaim
      \<lparr>ReversalRequest_ClaimID = 1, ReversalRequest_Reason = ''entered twice''\<rparr> sample_world")
  have "\<exists>response. res = Inr response"
    using r by (auto simp: ClaimsService_ReverseClaim_def store_defs sample_world_def)
  then obtain response where "res = Inr response" ..
  with r ReverseClaim_returns_claim_id
           [of "\<lparr>ReversalRequest_ClaimID = 1, ReversalRequest_Reason = ''entered twice''\<rparr>"
               sample_world response w']
  show ?thesis
    by simp
qed

section \<open>Properties of the handlers\<close>

text \<open>
  No error of the claims service reads \<open>claim is already reversed\<close>, the one text the
  handler answers with 409: with the claims service behind it, the handler never
  answers a reversal with 409.
\<close>

lemma ClaimsService_ReverseClaim_error_text:
  "ClaimsService_ReverseClaim request w = (Inl err, w') \<Longrightarrow> err \<noteq> ''claim is already reversed''"
  by (auto simp: ClaimsService_ReverseClaim_def
      split: list.splits option.splits sum.splits if_splits prod.splits)

lemma HttpHandler_ReverseClaim_never_conflict:
  "Response_StatusCode (fst (HttpHandler_ReverseClaim NewClaimsService r w)) \<noteq> StatusConflict"
  using ClaimsService_ReverseClaim_error_text
  by (auto simp: HttpHandler_ReverseClaim_def NewClaimsService_def sendErrorResponse_def
        sendJSONResponse_def StatusOK_def StatusInternalServerError_def StatusConflict_def
        StatusNotFound_def StatusBadRequest_def StatusMethodNotAllowed_def
      split: list.splits option.splits sum.splits if_splits prod.splits)

text \<open>
  With the database answering, a reversal of a claim that exists and is not reversed
  is answered 200 and stores the reversal; a reversal of a claim that is reversed is
  answered 500.
\<close>

lemma find_present:
  "k \<in> set (map f xs) \<Longrightarrow> \<exists>x. find (\<lambda>x. f x = k) xs = Some x"
  by (induction xs) auto

lemma unreversed_claim_answered_200:
  assumes "faults w = []"
    and "Request_Method r = ''POST''"
    and "Request_AsReversalRequest r = Inr request"
    and "ReversalRequest_ClaimID request \<noteq> uuid_Nil"
    and "ReversalRequest_ClaimID request \<in> set (map Claim_ID (claims w))"
    and "ReversalRequest_ClaimID request \<notin> set (map Reversal_ClaimID (reversals w))"
    and "rand w (drawn w) \<notin> set (map Reversal_ID (reversals w))"
  shows "fst (HttpHandler_ReverseClaim NewClaimsService r w) =
           sendJSONResponse StatusOK
             (ReversalBody \<lparr>ReversalResponse_Status = ''claim reversed'',
                             ReversalResponse_ClaimID = ReversalRequest_ClaimID request\<rparr>)"
    and "reversals (snd (HttpHandler_ReverseClaim NewClaimsService r w)) =
           reversals w @
           [\<lparr>Reversal_ID = rand w (drawn w), Reversal_ClaimID = ReversalRequest_ClaimID request,
             Reversal_Timestamp = clock w\<rparr>]"
proof -
  obtain claim where c:
    "find (\<lambda>c. Claim_ID c = ReversalRequest_ClaimID request) (claims w) = Some claim"
    using find_present [OF assms(5)] by blast
  then have id: "Claim_ID claim = ReversalRequest_ClaimID request"
    by (auto simp: find_Some_iff)
  obtain res w' where s: "ClaimsService_ReverseClaim request w = (res, w')"
    by (cases "ClaimsService_ReverseClaim request w")
  have "res = Inr \<lparr>ReversalResponse_Status = ''claim reversed'',
                    ReversalResponse_ClaimID = ReversalRequest_ClaimID request\<rparr> \<and>
        reversals w' = reversals w @
           [\<lparr>Reversal_ID = rand w (drawn w), Reversal_ClaimID = ReversalRequest_ClaimID request,
             Reversal_Timestamp = clock w\<rparr>]"
    using s c id assms(1,5,6,7)
    by (auto simp: ClaimsService_ReverseClaim_def store_defs split: sum.splits option.splits)
  then show "fst (HttpHandler_ReverseClaim NewClaimsService r w) =
           sendJSONResponse StatusOK
             (ReversalBody \<lparr>ReversalResponse_Status = ''claim reversed'',
                             ReversalResponse_ClaimID = ReversalRequest_ClaimID request\<rparr>)"
    and "reversals (snd (HttpHandler_ReverseClaim NewClaimsService r w)) =
           reversals w @
           [\<lparr>Reversal_ID = rand w (drawn w), Reversal_ClaimID = ReversalRequest_ClaimID request,
             Reversal_Timestamp = clock w\<rparr>]"
    using s assms(2,3,4)
    by (simp_all add: HttpHandler_ReverseClaim_def NewClaimsService_def)
qed


lemma reversed_claim_answered_500:
  assumes "faults w = []"
    and "Request_Method r = ''POST''"
    and "Request_AsReversalRequest r = Inr request"
    and "ReversalRequest_ClaimID request \<noteq> uuid_Nil"
    and "ReversalRequest_ClaimID request \<in> set (map Claim_ID (claims w))"
    and "ReversalRequest_ClaimID request \<in> set (map Reversal_ClaimID (reversals w))"
  shows "fst (HttpHandler_ReverseClaim NewClaimsService r w) =
           sendErrorResponse StatusInternalServerError ''Failed to reverse claim''
             ''failed to reverse claim: claim already reversed''"
proof -
  obtain claim where
    "find (\<lambda>c. Claim_ID c = ReversalRequest_ClaimID request) (claims w) = Some claim"
    using find_present [OF assms(5)] by blast
  then have "fst (ClaimsService_ReverseClaim request w) =
      Inl ''failed to reverse claim: claim already reversed''"
    using assms(1,5,6) by (simp add: ClaimsService_ReverseClaim_def store_defs)
  then show ?thesis
    using assms(2,3,4)
    by (cases "ClaimsService_ReverseClaim request w")
       (simp add: HttpHandler_ReverseClaim_def NewClaimsService_def)
qed


text \<open>
  C2.  The claim: for a claim that exists and is not reversed, the first
  \<open>POST /reversal\<close> is answered 200 and the second 409 with the error
  \<open>Claim already reversed\<close>.  The first is; the second meets the repository's
  \<open>claim already reversed\<close>, which the service wraps into
  \<open>failed to reverse claim: claim already reversed\<close>, and the handler, which looks for
  \<open>claim is already reversed\<close>, answers 500, for the sample claim as for every
  other (\<open>reversed_claim_answered_500\<close>).  The handler's own test expects 409.
\<close>

theorem second_reversal_answered_500:
  "Response_StatusCode
     (fst (HttpHandler_ReverseClaim NewClaimsService sample_reversal sample_world)) = 200 \<and>
   fst (HttpHandler_ReverseClaim NewClaimsService sample_reversal
          (snd (HttpHandler_ReverseClaim NewClaimsService sample_reversal sample_world))) =
     sendErrorResponse 500 ''Failed to reverse claim''
       ''failed to reverse claim: claim already reversed''"
  by (simp add: HttpHandler_ReverseClaim_def NewClaimsService_def ClaimsService_ReverseClaim_def
      store_defs sample_world_def sample_reversal_def uuid_Nil_def sendJSONResponse_def
      sendErrorResponse_def StatusOK_def StatusInternalServerError_def StatusConflict_def
      StatusNotFound_def)

lemma SetupRoutes_patterns:
  "SetupRoutes h ''/claim'' = Some (HttpHandler_SubmitClaim h) \<and>
   SetupRoutes h ''/reversal'' = Some (HttpHandler_ReverseClaim h) \<and>
   SetupRoutes h ''/health'' = Some (HttpHandler_HealthCheck h)"
  by (simp add: SetupRoutes_def)

text \<open>
  C10.  A request to \<open>/claim\<close> or \<open>/reversal\<close> that is not a \<open>POST\<close>, and a request to
  \<open>/health\<close> that is not a \<open>GET\<close>, is answered 405 with an error body of an error and
  a message, and the state is the one before the request: whatever service stands
  behind the handler, none of its methods has run.
\<close>

theorem wrong_method_answered_405:
  "(Request_Method r \<noteq> ''POST'' \<longrightarrow>
      HttpHandler_SubmitClaim h r w =
        (sendErrorResponse 405 ''Method not allowed'' ''Only POST method is allowed'', w) \<and>
      HttpHandler_ReverseClaim h r w =
        (sendErrorResponse 405 ''Method not allowed'' ''Only POST method is allowed'', w)) \<and>
   (Request_Method r \<noteq> ''GET'' \<longrightarrow>
      HttpHandler_HealthCheck h r w =
        (sendErrorResponse 405 ''Method not allowed'' ''Only GET method is allowed'', w))"
  by (simp add: HttpHandler_SubmitClaim_def HttpHandler_ReverseClaim_def
      HttpHandler_HealthCheck_def StatusMethodNotAllowed_def)

theorem wrong_method_answered_405_witness:
  "HttpHandler_ReverseClaim NewClaimsService (sample_reversal\<lparr>Request_Method := ''GET''\<rparr>)
     sample_world =
     (\<lparr>Response_ContentType = ''application/json'', Response_StatusCode = 405,
       Response_Body = ErrorBody \<lparr>ErrorResponse_Error = ''Method not allowed'',
                                   ErrorResponse_Message = ''Only POST method is allowed''\<rparr>\<rparr>,
      sample_world) \<and>
   HttpHandler_SubmitClaim NewClaimsService (sample_reversal\<lparr>Request_Method := ''GET''\<rparr>)
     sample_world =
     (\<lparr>Response_ContentType = ''application/json'', Response_StatusCode = 405,
       Response_Body = ErrorBody \<lparr>ErrorResponse_Error = ''Method not allowed'',
                                   ErrorResponse_Message = ''Only POST method is allowed''\<rparr>\<rparr>,
      sample_world) \<and>
   HttpHandler_HealthCheck NewClaimsService sample_reversal sample_world =
     (\<lparr>Response_ContentType = ''application/json'', Response_StatusCode = 405,
       Response_Body = ErrorBody \<lparr>ErrorResponse_Error = ''Method not allowed'',
                                   ErrorResponse_Message = ''Only GET method is allowed''\<rparr>\<rparr>,
      sample_world)"
  using wrong_method_answered_405
          [of "sample_reversal\<lparr>Request_Method := ''GET''\<rparr>" NewClaimsService sample_world]
        wrong_method_answered_405 [of sample_reversal NewClaimsService sample_world]
  by (simp add: sample_reversal_def sendErrorResponse_def sendJSONResponse_def)

section \<open>Properties of the loader\<close>

lemmas loader_defs =
  loadPharmaciesFromCSV_def csv_eof_def processPharmaciesBatch_def BatchCreatePharmacies_def
  ValidateNPI_def Atoi_def has_sign_def is_digit_def TrimSpace_def strip_runes.simps
  space_runes_def NewLoaderService_def NewLoaderServiceWithBatchSize_def DefaultBatchSize_def
  MaxBatchSize_def valid_chain_def char_length_def

text \<open>
  The defect of C1 seen from the loader: a file of two reversals of claim 1 in the
  sample directory, loaded into the sample store, leaves both.
\<close>

lemma LoadReversalsFromData_two_reversals_of_one_claim:
  "fst (LoadReversalsFromData NewLoaderService sample_os ''data'' sample_world) = None \<and>
   map Reversal_ClaimID
     (reversals (snd (LoadReversalsFromData NewLoaderService sample_os ''data'' sample_world))) =
     [1, 1]"
  by (simp add: LoadReversalsFromData_def loadDataFromFiles_def already_loaded_def
      CountReversals_def loadJSONFromFile_def processReversalsBatch_def BatchCreateReversals_def
      loader_defs store_defs sample_os_def sample_world_def)

text \<open>
  C6.  The loader keeps a configured batch size from 1 to 10000, the bound included,
  and takes the default 1000 for any other; the loader built without a size has
  batch size 1000.
\<close>

theorem NewLoaderServiceWithBatchSize_batchSize:
  "(1 \<le> b \<and> b \<le> 10000 \<longrightarrow> batchSize (NewLoaderServiceWithBatchSize b) = b) \<and>
   (b \<le> 0 \<or> 10000 < b \<longrightarrow> batchSize (NewLoaderServiceWithBatchSize b) = 1000) \<and>
   batchSize (NewLoaderServiceWithBatchSize 10000) = 10000 \<and>
   batchSize NewLoaderService = 1000"
  by (auto simp: NewLoaderServiceWithBatchSize_def NewLoaderService_def MaxBatchSize_def
      DefaultBatchSize_def)

theorem NewLoaderServiceWithBatchSize_batchSize_witness:
  "batchSize (NewLoaderServiceWithBatchSize 500) = 500 \<and>
   batchSize (NewLoaderServiceWithBatchSize 0) = 1000 \<and>
   batchSize (NewLoaderServiceWithBatchSize (- 100)) = 1000 \<and>
   batchSize (NewLoaderServiceWithBatchSize 10001) = 1000"
  using NewLoaderServiceWithBatchSize_batchSize [of 500]
    NewLoaderServiceWithBatchSize_batchSize [of 0]
    NewLoaderServiceWithBatchSize_batchSize [of "- 100"]
    NewLoaderServiceWithBatchSize_batchSize [of 10001]
  by simp

text \<open>
  C7.  The claim: if a table holds a row when its loader runs, the load is skipped
  and no row is inserted.  The loader learns of the rows from a count query, and a
  count that fails is logged as a warning and does not end the load: with the count
  refused, the pharmacy loader adds the pharmacy of \<open>p.csv\<close> to a table that holds
  one, and the reversal loader adds a reversal of \<open>r.json\<close> to a table that holds
  one.
\<close>

theorem loaders_load_into_populated_tables:
  "map Pharmacy_NPI (pharmacies sample_world) = [''1234567890''] \<and>
   fst (LoadPharmaciesFromData NewLoaderService sample_os ''data''
          (sample_world\<lparr>faults := [Some ''connection refused'']\<rparr>)) = None \<and>
   map Pharmacy_NPI
     (pharmacies (snd (LoadPharmaciesFromData NewLoaderService sample_os ''data''
                         (sample_world\<lparr>faults := [Some ''connection refused'']\<rparr>)))) =
     [''1234567890'', ''1112223334''] \<and>
   fst (LoadReversalsFromData NewLoaderService sample_os ''data''
          (sample_world\<lparr>reversals :=
             [\<lparr>Reversal_ID = 10, Reversal_ClaimID = 1, Reversal_Timestamp = 3\<rparr>],
             faults := [Some ''connection refused'']\<rparr>)) = None \<and>
   map Reversal_ID
     (reversals (snd (LoadReversalsFromData NewLoaderService sample_os ''data''
          (sample_world\<lparr>reversals :=
             [\<lparr>Reversal_ID = 10, Reversal_ClaimID = 1, Reversal_Timestamp = 3\<rparr>],
             faults := [Some ''connection refused'']\<rparr>)))) = [10, 11]"
  by (simp add: LoadPharmaciesFromData_def LoadReversalsFromData_def loadDataFromFiles_def already_loaded_def
      CountPharmacies_def CountReversals_def loadJSONFromFile_def processReversalsBatch_def
      BatchCreateReversals_def loader_defs store_defs sample_os_def sample_world_def)

text \<open>
  C7, as amended.  When the count of a table is answered and the table holds a row,
  the load for it returns \<open>nil\<close> at once: the state after it is the state before it
  with the count entered among the calls and the line that tells the skip in the log.
  The tables are untouched, no batch is handed to the repository and, the operating
  system being arbitrary, no file is looked at.
\<close>

theorem loaders_skip_populated_tables:
  "next_answered w \<Longrightarrow>
   (pharmacies w \<noteq> [] \<longrightarrow>
      LoadPharmaciesFromData ls os dataDir w =
        (None, w\<lparr>faults := tl (faults w), calls := calls w @ [CallCountPharmacies],
                 stdlog := stdlog w @
                   [Printf ''Pharmacies already loaded (%d records found), skipping data loading''
                      [I (int (length (pharmacies w)))]]\<rparr>)) \<and>
   (claims w \<noteq> [] \<longrightarrow>
      LoadClaimsFromData ls os dataDir w =
        (None, w\<lparr>faults := tl (faults w), calls := calls w @ [CallCountClaims],
                 stdlog := stdlog w @
                   [Printf ''%s already loaded (%d records found), skipping data loading''
                      [S ''claims'', I (int (length (claims w)))]]\<rparr>)) \<and>
   (reversals w \<noteq> [] \<longrightarrow>
      LoadReversalsFromData ls os dataDir w =
        (None, w\<lparr>faults := tl (faults w), calls := calls w @ [CallCountReversals],
                 stdlog := stdlog w @
                   [Printf ''%s already loaded (%d records found), skipping data loading''
                      [S ''reversals'', I (int (length (reversals w)))]]\<rparr>))"
  by (simp add: LoadPharmaciesFromData_def LoadClaimsFromData_def LoadReversalsFromData_def
      loadDataFromFiles_def already_loaded_def CountPharmacies_def CountClaims_def
      CountReversals_def countRows_answered log_Printf_def)

theorem loaders_skip_populated_tables_witness:
  "LoadPharmaciesFromData NewLoaderService sample_os ''data'' sample_world =
     (None, sample_world\<lparr>calls := [CallCountPharmacies],
        stdlog := [Printf ''Pharmacies already loaded (%d records found), skipping data loading''
                     [I 1]]\<rparr>) \<and>
   LoadClaimsFromData NewLoaderService sample_os ''data'' sample_world =
     (None, sample_world\<lparr>calls := [CallCountClaims],
        stdlog := [Printf ''%s already loaded (%d records found), skipping data loading''
                     [S ''claims'', I 1]]\<rparr>) \<and>
   LoadReversalsFromData NewLoaderService sample_os ''data''
       (sample_world\<lparr>reversals :=
          [\<lparr>Reversal_ID = 10, Reversal_ClaimID = 1, Reversal_Timestamp = 3\<rparr>]\<rparr>) =
     (None, sample_world\<lparr>reversals :=
               [\<lparr>Reversal_ID = 10, Reversal_ClaimID = 1, Reversal_Timestamp = 3\<rparr>],
        calls := [CallCountReversals],
        stdlog := [Printf ''%s already loaded (%d records found), skipping data loading''
                     [S ''reversals'', I 1]]\<rparr>)"
proof -
  have "next_answered sample_world" "pharmacies sample_world \<noteq> []" "claims sample_world \<noteq> []"
    "next_answered (sample_world\<lparr>reversals :=
          [\<lparr>Reversal_ID = 10, Reversal_ClaimID = 1, Reversal_Timestamp = 3\<rparr>]\<rparr>)"
    by (simp_all add: next_answered_def sample_world_def)
  then show ?thesis
    using loaders_skip_populated_tables [of sample_world NewLoaderService sample_os "''data''"]
      loaders_skip_populated_tables
        [of "sample_world\<lparr>reversals :=
               [\<lparr>Reversal_ID = 10, Reversal_ClaimID = 1, Reversal_Timestamp = 3\<rparr>]\<rparr>"
            NewLoaderService sample_os "''data''"]
    by (simp add: sample_world_def)
qed

text \<open>
  When the count fails the check does not end the load: the loader logs the failure
  and goes on to the files.
\<close>

lemma already_loaded_count_failed:
  "faults w = Some msg # rest \<Longrightarrow>
     fst (already_loaded CountPharmacies warning skipping name w) = False"
  by (simp add: already_loaded_def CountPharmacies_def countRows_def roundtrip_def entered_def)

text \<open>
  The tally of \<open>LoadPharmaciesFromData\<close> and the table: a batch that is processed
  without error leaves a pharmacy in the table, and no step of the load empties the
  table.  So whenever \<open>LoadPharmaciesFromData\<close> returns \<open>nil\<close> the pharmacies table
  holds a row; a load after which the table is empty has returned an error.
\<close>

lemma roundtrip_tables:
  "roundtrip w = (r, w') \<Longrightarrow> pharmacies w' = pharmacies w"
  by (auto simp: roundtrip_def split: list.splits)

lemma insert_pharmacy_loaded:
  "insert_row skip (PharmacyRow npi chain) w = (r, w') \<Longrightarrow>
     (pharmacies w \<noteq> [] \<longrightarrow> pharmacies w' \<noteq> []) \<and> (r = None \<longrightarrow> pharmacies w' \<noteq> [])"
  by (auto simp: Let_def split: if_splits)

lemma exec_rows_loaded:
  "exec_rows (map (\<lambda>p. PharmacyRow (Pharmacy_NPI p) (Pharmacy_Chain p)) ps) w = (r, w') \<Longrightarrow>
     (pharmacies w \<noteq> [] \<longrightarrow> pharmacies w' \<noteq> []) \<and>
     (r = None \<and> ps \<noteq> [] \<longrightarrow> pharmacies w' \<noteq> [])"
proof (induction ps arbitrary: w)
  case Nil
  then show ?case by simp
next
  case (Cons p ps)
  obtain f w1 where rt: "roundtrip w = (f, w1)" by (cases "roundtrip w")
  obtain e w2 where ins:
    "insert_row True (PharmacyRow (Pharmacy_NPI p) (Pharmacy_Chain p)) w1 = (e, w2)"
    by (cases "insert_row True (PharmacyRow (Pharmacy_NPI p) (Pharmacy_Chain p)) w1")
  note t1 = roundtrip_tables [OF rt] and t2 = insert_pharmacy_loaded [OF ins]
  show ?case
  proof (cases "f = None \<and> e = None")
    case True
    then have "exec_rows (map (\<lambda>p. PharmacyRow (Pharmacy_NPI p) (Pharmacy_Chain p)) ps) w2 = (r, w')"
      using Cons.prems rt ins by simp
    from Cons.IH [OF this] t1 t2 True show ?thesis by auto
  next
    case False
    then have "(w' = w1 \<or> w' = w2) \<and> r \<noteq> None"
      using Cons.prems rt ins by (auto split: option.splits)
    then show ?thesis
      using t1 t2 by auto
  qed
qed

lemma foldl_LogEvent_tables:
  "pharmacies (foldl (\<lambda>w' p. LogEvent t (f p) w') w ps) = pharmacies w"
  by (induction ps arbitrary: w) (simp_all add: LogEvent_def)

lemma processPharmaciesBatch_loaded:
  assumes "processPharmaciesBatch ps w = (r, w')"
  shows "pharmacies w \<noteq> [] \<longrightarrow> pharmacies w' \<noteq> []"
    and "r = None \<and> ps \<noteq> [] \<longrightarrow> pharmacies w' \<noteq> []"
proof -
  let ?rows = "map (\<lambda>p. PharmacyRow (Pharmacy_NPI p) (Pharmacy_Chain p)) ps"
  let ?w0 = "entered (CallBatchCreatePharmacies ps) w"
  obtain f1 w1 where r1: "roundtrip ?w0 = (f1, w1)" by (cases "roundtrip ?w0")
  obtain f2 w2 where r2: "roundtrip w1 = (f2, w2)" by (cases "roundtrip w1")
  obtain e w3 where ex: "exec_rows ?rows w2 = (e, w3)" by (cases "exec_rows ?rows w2")
  obtain f4 w4 where r4: "roundtrip w3 = (f4, w4)" by (cases "roundtrip w3")
  note t = roundtrip_tables [OF r1] roundtrip_tables [OF r2] exec_rows_loaded [OF ex]
    roundtrip_tables [OF r4]
  have p0: "pharmacies ?w0 = pharmacies w" by (simp add: entered_def)
  obtain b wb where b: "BatchCreatePharmacies ps w = (b, wb)"
    by (cases "BatchCreatePharmacies ps w")
  have "(b \<noteq> None \<and> (wb = w1 \<or> wb = w2 \<or> wb = rollback w1 w3 \<or> wb = rollback w1 w4)) \<or>
        (b = None \<and> e = None \<and> wb = w4)"
    using b r1 r2 ex r4
    by (auto simp: BatchCreatePharmacies_def batchInsert_def split: option.splits)
  then have wb: "pharmacies w \<noteq> [] \<longrightarrow> pharmacies wb \<noteq> []"
      "b = None \<and> ps \<noteq> [] \<longrightarrow> pharmacies wb \<noteq> []"
    using t p0 by (auto simp: rollback_def)
  have "(r = None \<longleftrightarrow> b = None) \<and> pharmacies w' = pharmacies wb"
    using assms b by (auto simp: processPharmaciesBatch_def foldl_LogEvent_tables split: option.splits)
  with wb show "pharmacies w \<noteq> [] \<longrightarrow> pharmacies w' \<noteq> []"
    and "r = None \<and> ps \<noteq> [] \<longrightarrow> pharmacies w' \<noteq> []"
    by auto
qed

lemma csv_eof_loaded:
  assumes "csv_eof batch tot w = ((n, err), w')"
  shows "tot \<le> n \<and> (pharmacies w \<noteq> [] \<longrightarrow> pharmacies w' \<noteq> []) \<and>
         (tot < n \<longrightarrow> pharmacies w' \<noteq> [])"
proof (cases "batch = []")
  case True
  then show ?thesis using assms by (simp add: csv_eof_def)
next
  case False
  obtain e w1 where p: "processPharmaciesBatch batch w = (e, w1)"
    by (cases "processPharmaciesBatch batch w")
  then have "w' = w1" "e = None \<longrightarrow> n = tot + int (length batch)" "e \<noteq> None \<longrightarrow> n = tot"
    using assms False by (auto simp: csv_eof_def split: option.splits)
  then show ?thesis
    using processPharmaciesBatch_loaded [OF p] False by (cases e) auto
qed

lemma pharmacies_log_Printf [simp]: "pharmacies (log_Printf f args w) = pharmacies w"
  by (simp add: log_Printf_def)

lemma csv_loop_loaded:
  "csv_loop ls filename k rows batch tot line w = ((n, err), w') \<Longrightarrow>
     tot \<le> n \<and> (pharmacies w \<noteq> [] \<longrightarrow> pharmacies w' \<noteq> []) \<and>
     (tot < n \<longrightarrow> pharmacies w' \<noteq> [])"
proof (induction rows arbitrary: k batch tot line w)
  case Nil
  then show ?case using csv_eof_loaded [of batch tot w n err w'] by simp
next
  case (Cons rd rows)
  let ?ph = "\<lambda>cols. \<lparr>Pharmacy_ID = 0, Pharmacy_NPI = TrimSpace (cols ! 1),
                       Pharmacy_Chain = TrimSpace (cols ! 0)\<rparr>"
  consider (eof) "csv_eof batch tot w = ((n, err), w')"
    | (skip) k1 batch1 l where
        "csv_loop ls filename k1 rows batch1 tot (line + 1) (log_Printf (fst l) (snd l) w) =
           ((n, err), w')"
    | (keep) k1 batch1 where
        "csv_loop ls filename k1 rows batch1 tot (line + 1) w = ((n, err), w')"
    | (flush) k1 cols w1 where
        "processPharmaciesBatch (batch @ [?ph cols]) w = (None, w1)"
        "csv_loop ls filename k1 rows [] (tot + int (length (batch @ [?ph cols]))) (line + 1) w1 =
           ((n, err), w')"
    | (fail) cols e where
        "processPharmaciesBatch (batch @ [?ph cols]) w = (Some e, w')" "n = tot"
  proof -
    obtain res k1 where rd: "csv_Read k rd = (res, k1)" by (cases "csv_Read k rd")
    show ?thesis
    proof (cases res)
      case (Inl e)
      then show ?thesis
        using Cons.prems rd eof
          skip [of k1 batch "(''Error reading line %d in %s: %v'', [I (line + 1), S filename, S e])"]
        by (cases "e = ''EOF''") simp_all
    next
      case (Inr cols)
      show ?thesis
      proof (cases "length cols < 2")
        case True
        then show ?thesis
          using Cons.prems rd Inr
            skip [of k1 batch "(''Skipping invalid record at line %d: %v'', [I (line + 1), L cols])"]
          by simp
      next
        case long: False
        show ?thesis
        proof (cases "ValidateNPI (TrimSpace (cols ! 1))")
          case (Some e)
          then show ?thesis
            using Cons.prems rd Inr long skip [of k1 batch "(''%v'', [S e])"]
            by (simp add: Let_def)
        next
          case None
          obtain e w1 where p: "processPharmaciesBatch (batch @ [?ph cols]) w = (e, w1)"
            by (cases "processPharmaciesBatch (batch @ [?ph cols]) w")
          have step: "csv_loop ls filename k (rd # rows) batch tot line w =
              (if batchSize ls \<le> int (length (batch @ [?ph cols]))
               then (case e of
                       Some err \<Rightarrow>
                         ((tot, Some (''failed to process batch at line '' @
                                      Itoa (line + 1) @ '': '' @ err)), w1)
                     | None \<Rightarrow>
                         csv_loop ls filename k1 rows []
                           (tot + int (length (batch @ [?ph cols]))) (line + 1) w1)
               else csv_loop ls filename k1 rows (batch @ [?ph cols]) tot (line + 1) w)"
            using rd Inr long None p
            by (simp add: Let_def cong: prod.case_cong option.case_cong)
          show ?thesis
          proof (cases "batchSize ls \<le> int (length (batch @ [?ph cols]))")
            case False
            then show ?thesis
              using keep [of k1 "batch @ [?ph cols]"] Cons.prems step by simp
          next
            case full: True
            show ?thesis
            proof (cases e)
              case None
              then show ?thesis
                using flush [of cols w1 k1] Cons.prems step p full by simp
            next
              case (Some msg)
              then show ?thesis
                using fail [of cols msg] Cons.prems step p full by auto
            qed
          qed
        qed
      qed
    qed
  qed
  then show ?case
  proof cases
    case eof
    then show ?thesis using csv_eof_loaded by blast
  next
    case skip
    from Cons.IH [OF skip] show ?thesis by simp
  next
    case keep
    from Cons.IH [OF keep] show ?thesis by simp
  next
    case flush
    from Cons.IH [OF flush(2)] processPharmaciesBatch_loaded [OF flush(1)] show ?thesis
      by auto
  next
    case fail
    from processPharmaciesBatch_loaded [OF fail(1)] fail(2) show ?thesis
      by auto
  qed
qed

lemma loadPharmaciesFromCSV_loaded:
  assumes "loadPharmaciesFromCSV ls os filename w = ((n, err), w')"
  shows "0 \<le> n \<and> (pharmacies w \<noteq> [] \<longrightarrow> pharmacies w' \<noteq> []) \<and>
         (0 < n \<longrightarrow> pharmacies w' \<noteq> [])"
proof (cases "Open_csv os filename")
  case (Inl e)
  then show ?thesis using assms by (simp add: loadPharmaciesFromCSV_def)
next
  case (Inr rds)
  show ?thesis
  proof (cases rds)
    case Nil
    then show ?thesis using assms Inr by (simp add: loadPharmaciesFromCSV_def)
  next
    case (Cons header rest)
    obtain res k where rd: "csv_Read 0 header = (res, k)" by (cases "csv_Read 0 header")
    show ?thesis
    proof (cases res)
      case (Inl e)
      then show ?thesis using assms Inr Cons rd by (simp add: loadPharmaciesFromCSV_def)
    next
      case r: (Inr cols)
      then have "csv_loop ls filename k rest [] 0 1 w = ((n, err), w')"
        using assms Inr Cons rd by (simp add: loadPharmaciesFromCSV_def)
      from csv_loop_loaded [OF this] show ?thesis by simp
    qed
  qed
qed

lemma load_pharmacy_files_loaded:
  "load_pharmacy_files ls os files tot w = (n, w') \<Longrightarrow>
     tot \<le> n \<and> (pharmacies w \<noteq> [] \<longrightarrow> pharmacies w' \<noteq> []) \<and>
     (tot < n \<longrightarrow> pharmacies w' \<noteq> [])"
proof (induction files arbitrary: tot w)
  case Nil
  then show ?case by simp
next
  case (Cons path files)
  obtain loaded err w1 where l: "loadPharmaciesFromCSV ls os path w = ((loaded, err), w1)"
    by (metis surj_pair)
  note f = loadPharmaciesFromCSV_loaded [OF l]
  show ?case
  proof (cases err)
    case None
    then have "load_pharmacy_files ls os files (tot + loaded) w1 = (n, w')"
      using Cons.prems l by simp
    from Cons.IH [OF this] f show ?thesis by auto
  next
    case (Some e)
    then have "load_pharmacy_files ls os files tot
        (log_Printf ''Failed to load pharmacies from %s: %v'' [S path, S e] w1) = (n, w')"
      using Cons.prems l by simp
    from Cons.IH [OF this] f show ?thesis by auto
  qed
qed

lemma LoadPharmaciesFromData_nil_loaded:
  assumes "LoadPharmaciesFromData ls os dataDir w = (None, w')"
  shows "pharmacies w' \<noteq> []"
proof -
  obtain skip w1 where al: "already_loaded CountPharmacies
      ''Warning: Failed to check pharmacy count: %v''
      ''Pharmacies already loaded (%d records found), skipping data loading'' [] w = (skip, w1)"
    by (metis surj_pair)
  show ?thesis
  proof (cases skip)
    case True
    then have "w' = w1" using assms al by (simp add: LoadPharmaciesFromData_def)
    moreover have "pharmacies w1 \<noteq> []"
      using al True
      by (auto simp: already_loaded_def CountPharmacies_def countRows_def roundtrip_def
            entered_def log_Printf_def
          split: list.splits option.splits if_splits)
    ultimately show ?thesis by simp
  next
    case False
    let ?dir = "Join os dataDir ''pharmacies''"
    from assms al False obtain files where
      "Glob os (Join os ?dir ''*.csv'') = Inr files"
      by (cases "Glob os (Join os ?dir ''*.csv'')")
         (auto simp: LoadPharmaciesFromData_def Let_def split: if_splits)
    moreover obtain n w2 where lf: "load_pharmacy_files ls os files 0 w1 = (n, w2)"
      by (metis surj_pair)
    ultimately have "n \<noteq> 0 \<and> pharmacies w' = pharmacies w2"
      using assms al False
      by (auto simp: LoadPharmaciesFromData_def Let_def split: if_splits)
    with load_pharmacy_files_loaded [OF lf] show ?thesis by auto
  qed
qed

text \<open>
  C8.  The claim: \<open>LoadPharmaciesFromData\<close> returns an error when the pharmacies
  directory is absent, when no CSV file matches or when no pharmacy is loaded, while
  the loaders of claims and reversals return \<open>nil\<close> when no file matches.  The
  pharmacy loader looks at the directory only after the check of C7: with a pharmacy
  in the table and no directory at all it returns \<open>nil\<close>.
\<close>

theorem LoadPharmaciesFromData_populated_no_directory:
  "Stat_IsNotExist bare_os (Join bare_os ''data'' ''pharmacies'') \<and>
   fst (LoadPharmaciesFromData NewLoaderService bare_os ''data'' sample_world) = None"
  by (simp add: LoadPharmaciesFromData_def already_loaded_def CountPharmacies_def store_defs
      bare_os_def sample_world_def)

text \<open>
  C8, as amended.  When the check of C7 does not end the load (the pharmacies table
  counted empty, or the count failed), \<open>LoadPharmaciesFromData\<close> returns an error if
  the pharmacies directory does not exist, if no CSV file matches, and if the files
  taken together add nothing to the tally of pharmacies loaded; by
  \<open>LoadPharmaciesFromData_nil_loaded\<close> that covers every load that leaves the table
  empty.  \<open>LoadClaimsFromData\<close> and \<open>LoadReversalsFromData\<close> return \<open>nil\<close> whenever no
  file matches their pattern, which is what \<open>Glob\<close> answers for a directory that does
  not exist.
\<close>

theorem missing_data_fatal_for_pharmacies_only:
  "(already_loaded CountPharmacies ''Warning: Failed to check pharmacy count: %v''
      ''Pharmacies already loaded (%d records found), skipping data loading'' [] w =
      (False, w1) \<longrightarrow>
      (Stat_IsNotExist os (Join os dataDir ''pharmacies'') \<longrightarrow>
         LoadPharmaciesFromData ls os dataDir w =
           (Some (''pharmacies directory not found: '' @ Join os dataDir ''pharmacies''), w1)) \<and>
      (\<not> Stat_IsNotExist os (Join os dataDir ''pharmacies'') \<and>
       Glob os (Join os (Join os dataDir ''pharmacies'') ''*.csv'') = Inr [] \<longrightarrow>
         LoadPharmaciesFromData ls os dataDir w =
           (Some (''no pharmacy CSV files found in '' @ Join os dataDir ''pharmacies''), w1)) \<and>
      (\<not> Stat_IsNotExist os (Join os dataDir ''pharmacies'') \<and>
       Glob os (Join os (Join os dataDir ''pharmacies'') ''*.csv'') = Inr files \<and>
       files \<noteq> [] \<and> fst (load_pharmacy_files ls os files 0 w1) = 0 \<longrightarrow>
         fst (LoadPharmaciesFromData ls os dataDir w) =
           Some ''no pharmacies loaded from data directory'')) \<and>
   (Glob os (Join os (Join os dataDir ''claims'') ''*.json'') = Inr [] \<longrightarrow>
      fst (LoadClaimsFromData ls os dataDir w) = None) \<and>
   (Glob os (Join os (Join os dataDir ''reverts'') ''*.json'') = Inr [] \<longrightarrow>
      fst (LoadReversalsFromData ls os dataDir w) = None)"
  by (auto simp: LoadPharmaciesFromData_def LoadClaimsFromData_def LoadReversalsFromData_def
        loadDataFromFiles_def Let_def
      split: prod.splits bool.splits)

theorem missing_data_fatal_for_pharmacies_only_witness:
  "fst (LoadPharmaciesFromData NewLoaderService bare_os ''data'' empty_world) =
     Some ''pharmacies directory not found: data/pharmacies'' \<and>
   fst (LoadPharmaciesFromData NewLoaderService (sample_os\<lparr>Glob := \<lambda>pattern. Inr []\<rparr>) ''data''
          empty_world) =
     Some ''no pharmacy CSV files found in data/pharmacies'' \<and>
   fst (LoadPharmaciesFromData NewLoaderService
          (sample_os\<lparr>Open_csv := \<lambda>path. Inr [CsvRecord [''chain'', ''npi'']]\<rparr>) ''data''
          empty_world) =
     Some ''no pharmacies loaded from data directory'' \<and>
   fst (LoadClaimsFromData NewLoaderService bare_os ''data'' empty_world) = None \<and>
   fst (LoadReversalsFromData NewLoaderService bare_os ''data'' empty_world) = None"
proof -
  let ?w1 = "empty_world\<lparr>calls := [CallCountPharmacies]\<rparr>"
  have al: "already_loaded CountPharmacies ''Warning: Failed to check pharmacy count: %v''
      ''Pharmacies already loaded (%d records found), skipping data loading'' [] empty_world =
      (False, ?w1)"
    by (simp add: already_loaded_def CountPharmacies_def store_defs empty_world_def
        sample_world_def)
  have tally: "fst (load_pharmacy_files NewLoaderService
          (sample_os\<lparr>Open_csv := \<lambda>path. Inr [CsvRecord [''chain'', ''npi'']]\<rparr>)
          [''data/pharmacies/p.csv''] 0 ?w1) = 0"
    by (simp add: loader_defs)
  show ?thesis
    using al tally
      missing_data_fatal_for_pharmacies_only
        [of empty_world ?w1 bare_os "''data''" NewLoaderService]
      missing_data_fatal_for_pharmacies_only
        [of empty_world ?w1 "sample_os\<lparr>Glob := \<lambda>pattern. Inr []\<rparr>" "''data''" NewLoaderService]
      missing_data_fatal_for_pharmacies_only
        [of empty_world ?w1 "sample_os\<lparr>Open_csv := \<lambda>path. Inr [CsvRecord [''chain'', ''npi'']]\<rparr>"
            "''data''" NewLoaderService "[''data/pharmacies/p.csv'']"]
    by (simp add: sample_os_def bare_os_def)
qed

text \<open>
  What a batch insert leaves alone: the calls entered and the lines logged.  So each
  batch processed adds itself, and nothing else, to what has been submitted.
\<close>

lemma roundtrip_frame:
  "roundtrip w = (r, w') \<Longrightarrow> calls w' = calls w \<and> stdlog w' = stdlog w"
  by (auto simp: roundtrip_def split: list.splits)

lemma insert_row_frame:
  "insert_row skip row w = (r, w') \<Longrightarrow> calls w' = calls w \<and> stdlog w' = stdlog w"
  by (cases row) (auto simp: Let_def split: if_splits)

lemma exec_rows_frame:
  "exec_rows rows w = (r, w') \<Longrightarrow> calls w' = calls w \<and> stdlog w' = stdlog w"
proof (induction rows arbitrary: w)
  case Nil
  then show ?case by simp
next
  case (Cons row rows)
  obtain f w1 where rt: "roundtrip w = (f, w1)" by (cases "roundtrip w")
  obtain e w2 where ins: "insert_row True row w1 = (e, w2)" by (cases "insert_row True row w1")
  show ?case
  proof (cases "f = None \<and> e = None")
    case True
    then have "exec_rows rows w2 = (r, w')"
      using Cons.prems rt ins by simp
    then show ?thesis
      using Cons.IH roundtrip_frame [OF rt] insert_row_frame [OF ins] by simp
  next
    case False
    then have "w' = w1 \<or> w' = w2"
      using Cons.prems rt ins by (auto split: option.splits)
    then show ?thesis
      using roundtrip_frame [OF rt] insert_row_frame [OF ins] by auto
  qed
qed

lemma batchInsert_frame:
  "batchInsert rows w = (r, w') \<Longrightarrow> calls w' = calls w \<and> stdlog w' = stdlog w"
proof -
  assume a: "batchInsert rows w = (r, w')"
  obtain f1 w1 where r1: "roundtrip w = (f1, w1)" by (cases "roundtrip w")
  obtain f2 w2 where r2: "roundtrip w1 = (f2, w2)" by (cases "roundtrip w1")
  obtain e w3 where ex: "exec_rows rows w2 = (e, w3)" by (cases "exec_rows rows w2")
  obtain f4 w4 where r4: "roundtrip w3 = (f4, w4)" by (cases "roundtrip w3")
  note fr = roundtrip_frame [OF r1] roundtrip_frame [OF r2] exec_rows_frame [OF ex]
    roundtrip_frame [OF r4]
  have "w' = w1 \<or> w' = w2 \<or> w' = rollback w1 w3 \<or> w' = rollback w1 w4 \<or> w' = w4"
    using a r1 r2 ex r4 by (auto simp: batchInsert_def split: option.splits)
  then show ?thesis
    using fr by (auto simp: rollback_def)
qed

lemma foldl_LogEvent_frame:
  "calls (foldl (\<lambda>w' p. LogEvent t (f p) w') w ps) = calls w \<and>
   stdlog (foldl (\<lambda>w' p. LogEvent t (f p) w') w ps) = stdlog w \<and>
   pharmacies (foldl (\<lambda>w' p. LogEvent t (f p) w') w ps) = pharmacies w"
  by (induction ps arbitrary: w) (simp_all add: LogEvent_def)

lemma processPharmaciesBatch_frame:
  assumes "processPharmaciesBatch ps w = (r, w')"
  shows "submitted w' = submitted w @ ps" and "stdlog w' = stdlog w"
proof -
  obtain e w1 where b: "batchInsert (map (\<lambda>p. PharmacyRow (Pharmacy_NPI p) (Pharmacy_Chain p)) ps)
       (entered (CallBatchCreatePharmacies ps) w) = (e, w1)"
    by (cases "batchInsert (map (\<lambda>p. PharmacyRow (Pharmacy_NPI p) (Pharmacy_Chain p)) ps)
       (entered (CallBatchCreatePharmacies ps) w)")
  have fr: "calls w1 = calls w @ [CallBatchCreatePharmacies ps]" "stdlog w1 = stdlog w"
    using batchInsert_frame [OF b] by (simp_all add: entered_def)
  have "calls w' = calls w1 \<and> stdlog w' = stdlog w1"
    using assms b foldl_LogEvent_frame [of "''pharmacy_loaded''" _ w1 ps]
    by (auto simp: processPharmaciesBatch_def BatchCreatePharmacies_def split: option.splits)
  then show "submitted w' = submitted w @ ps" and "stdlog w' = stdlog w"
    using fr by (simp_all add: submitted_def)
qed


lemma submitted_log_Printf [simp]: "submitted (log_Printf f args w) = submitted w"
  by (simp add: submitted_def log_Printf_def)

lemma stdlog_log_Printf [simp]: "stdlog (log_Printf f args w) = stdlog w @ [Printf f args]"
  by (simp add: log_Printf_def)

lemma csv_eof_submits:
  assumes "csv_eof batch tot w = ((n, err), w')"
  shows "submitted w' = submitted w @ batch \<and> stdlog w' = stdlog w \<and>
         (err = None \<longrightarrow> n = tot + int (length batch))"
proof (cases "batch = []")
  case True
  then show ?thesis using assms by (simp add: csv_eof_def)
next
  case False
  obtain e w1 where p: "processPharmaciesBatch batch w = (e, w1)"
    by (cases "processPharmaciesBatch batch w")
  then have "w' = w1" "err = None \<longrightarrow> n = tot + int (length batch)"
    using assms False by (auto simp: csv_eof_def split: option.splits)
  then show ?thesis
    using processPharmaciesBatch_frame [OF p] by simp
qed

text \<open>
  One turn of the loop, for a read that is not the end of the file: the row is
  skipped with a line, or it joins the batch, or it fills the batch, which then goes
  out and is accepted or refused.
\<close>

lemma csv_loop_cases:
  assumes "0 < k" "rd \<noteq> CsvError ''EOF''"
    and "csv_loop ls filename k (rd # rows) batch tot line w = ((n, err), w')"
  obtains (skip) l where "\<not> valid_row k rd"
      "csv_loop ls filename k rows batch tot (line + 1) (log_Printf (fst l) (snd l) w) =
         ((n, err), w')"
    | (keep) "valid_row k rd" "\<not> batchSize ls \<le> int (length (batch @ [row_pharmacy rd]))"
      "csv_loop ls filename k rows (batch @ [row_pharmacy rd]) tot (line + 1) w = ((n, err), w')"
    | (flush) w1 where "valid_row k rd"
      "batchSize ls \<le> int (length (batch @ [row_pharmacy rd]))"
      "processPharmaciesBatch (batch @ [row_pharmacy rd]) w = (None, w1)"
      "csv_loop ls filename k rows [] (tot + int (length (batch @ [row_pharmacy rd]))) (line + 1) w1
         = ((n, err), w')"
    | (fail) e where "valid_row k rd"
      "batchSize ls \<le> int (length (batch @ [row_pharmacy rd]))"
      "processPharmaciesBatch (batch @ [row_pharmacy rd]) w = (Some e, w')" "err \<noteq> None"
proof (cases rd)
  case (CsvError e)
  then have "e \<noteq> ''EOF''" using assms(2) by simp
  then show ?thesis
    using CsvError assms(1,3)
      skip [of "(''Error reading line %d in %s: %v'', [I (line + 1), S filename, S e])"]
    by (simp add: valid_row_def)
next
  case (CsvRecord cols)
  show ?thesis
  proof (cases "length cols = k")
    case False
    then show ?thesis
      using CsvRecord assms(1,3)
        skip [of "(''Error reading line %d in %s: %v'',
                   [I (line + 1), S filename, S ''wrong number of fields''])"]
      by (simp add: valid_row_def)
  next
    case True
    show ?thesis
    proof (cases "length cols < 2")
      case short: True
      then show ?thesis
        using CsvRecord True assms(1,3)
          skip [of "(''Skipping invalid record at line %d: %v'', [I (line + 1), L cols])"]
        by (simp add: valid_row_def)
    next
      case long: False
      show ?thesis
      proof (cases "ValidateNPI (TrimSpace (cols ! 1))")
        case (Some e)
        then show ?thesis
          using CsvRecord True long assms(1,3) skip [of "(''%v'', [S e])"]
          by (simp add: valid_row_def)
      next
        case None
        then have v: "valid_row k rd"
          using CsvRecord True long by (simp add: valid_row_def)
        have step: "csv_loop ls filename k (rd # rows) batch tot line w =
            (if batchSize ls \<le> int (length (batch @ [row_pharmacy rd]))
             then (case processPharmaciesBatch (batch @ [row_pharmacy rd]) w of
                     (Some err, w1) \<Rightarrow>
                       ((tot, Some (''failed to process batch at line '' @
                                    Itoa (line + 1) @ '': '' @ err)), w1)
                   | (None, w1) \<Rightarrow>
                       csv_loop ls filename k rows []
                         (tot + int (length (batch @ [row_pharmacy rd]))) (line + 1) w1)
             else csv_loop ls filename k rows (batch @ [row_pharmacy rd]) tot (line + 1) w)"
          using CsvRecord True long None assms(1)
          by (simp add: row_pharmacy_def Let_def cong: prod.case_cong option.case_cong)
        obtain e w1 where p: "processPharmaciesBatch (batch @ [row_pharmacy rd]) w = (e, w1)"
          by (cases "processPharmaciesBatch (batch @ [row_pharmacy rd]) w")
        show ?thesis
        proof (cases "batchSize ls \<le> int (length (batch @ [row_pharmacy rd]))")
          case False
          then show ?thesis
            using keep v assms(3) step by simp
        next
          case full: True
          show ?thesis
          proof (cases e)
            case None
            then show ?thesis
              using flush [of w1] v assms(3) step p full by simp
          next
            case (Some msg)
            then show ?thesis
              using fail [of msg] v assms(3) step p full by auto
          qed
        qed
      qed
    qed
  qed
qed

text \<open>
  What the loop submits is a prefix of the batch in the making followed by the valid
  rows still to come, and all of it when the loop ends without an error.
\<close>

lemma csv_loop_submits:
  assumes "0 < k" "CsvError ''EOF'' \<notin> set rows"
    and "csv_loop ls filename k rows batch tot line w = ((n, err), w')"
  shows "\<exists>xs. submitted w' = submitted w @ xs \<and>
           prefix xs (batch @ map row_pharmacy (filter (valid_row k) rows)) \<and>
           (err = None \<longrightarrow>
              xs = batch @ map row_pharmacy (filter (valid_row k) rows) \<and>
              n = tot + int (length xs) \<and>
              length (stdlog w') =
                length (stdlog w) + length (filter (\<lambda>rd. \<not> valid_row k rd) rows))"
  using assms(2,3)
proof (induction rows arbitrary: batch tot line w)
  case Nil
  then show ?case
    using csv_eof_submits [of batch tot w n err w'] by simp
next
  case (Cons rd rows)
  have noeof: "CsvError ''EOF'' \<notin> set rows" and rd: "rd \<noteq> CsvError ''EOF''"
    using Cons.prems(1) by auto
  note IH = Cons.IH [OF noeof]
  let ?acc = "map row_pharmacy (filter (valid_row k) rows)"
  let ?rej = "length (filter (\<lambda>rd. \<not> valid_row k rd) rows)"
  from assms(1) rd Cons.prems(2) show ?case
  proof (cases rule: csv_loop_cases)
    case (skip l)
    from IH [OF skip(2)] skip(1) show ?thesis by auto
  next
    case keep
    from IH [OF keep(3)] keep(1) show ?thesis by auto
  next
    case (flush w1)
    from IH [OF flush(4)] obtain xs where xs: "submitted w' = submitted w1 @ xs"
      "prefix xs ?acc"
      "err = None \<longrightarrow> xs = ?acc \<and>
         n = tot + int (length (batch @ [row_pharmacy rd])) + int (length xs) \<and>
         length (stdlog w') = length (stdlog w1) + ?rej"
      by auto
    have "submitted w' = submitted w @ ((batch @ [row_pharmacy rd]) @ xs)"
      using xs(1) processPharmaciesBatch_frame(1) [OF flush(3)] by simp
    moreover have "prefix ((batch @ [row_pharmacy rd]) @ xs)
        (batch @ map row_pharmacy (filter (valid_row k) (rd # rows)))"
      using xs(2) flush(1) by simp
    moreover have "err = None \<longrightarrow>
        (batch @ [row_pharmacy rd]) @ xs =
          batch @ map row_pharmacy (filter (valid_row k) (rd # rows)) \<and>
        n = tot + int (length ((batch @ [row_pharmacy rd]) @ xs)) \<and>
        length (stdlog w') =
          length (stdlog w) + length (filter (\<lambda>rd. \<not> valid_row k rd) (rd # rows))"
      using xs(3) flush(1) processPharmaciesBatch_frame(2) [OF flush(3)] by simp
    ultimately show ?thesis by blast
  next
    case (fail e)
    have "submitted w' = submitted w @ (batch @ [row_pharmacy rd])"
      using processPharmaciesBatch_frame(1) [OF fail(3)] by simp
    moreover have "prefix (batch @ [row_pharmacy rd])
        (batch @ map row_pharmacy (filter (valid_row k) (rd # rows)))"
      using fail(1) by simp
    ultimately show ?thesis using fail(4) by blast
  qed
qed

text \<open>
  A batch insert neither reads nor writes the log, so a state that differs in the
  log alone fares the same.
\<close>

lemma roundtrip_stdlog:
  "roundtrip w = (r, w1) \<Longrightarrow> roundtrip (w\<lparr>stdlog := s\<rparr>) = (r, w1\<lparr>stdlog := s\<rparr>)"
  by (auto simp: roundtrip_def split: list.splits)

lemma insert_row_stdlog:
  "insert_row skip row w = (r, w1) \<Longrightarrow>
     insert_row skip row (w\<lparr>stdlog := s\<rparr>) = (r, w1\<lparr>stdlog := s\<rparr>)"
  by (cases row) (auto simp: Let_def split: if_splits)

lemma exec_rows_stdlog:
  "exec_rows rows w = (r, w') \<Longrightarrow> exec_rows rows (w\<lparr>stdlog := s\<rparr>) = (r, w'\<lparr>stdlog := s\<rparr>)"
proof (induction rows arbitrary: w)
  case Nil
  then show ?case by simp
next
  case (Cons row rows)
  obtain f w1 where rt: "roundtrip w = (f, w1)" by (cases "roundtrip w")
  obtain e w2 where ins: "insert_row True row w1 = (e, w2)"
    by (cases "insert_row True row w1")
  note rt' = roundtrip_stdlog [OF rt, of s] and ins' = insert_row_stdlog [OF ins, of s]
  show ?case
  proof (cases "f = None \<and> e = None")
    case True
    then have "exec_rows rows w2 = (r, w')"
      using Cons.prems rt ins by simp
    from Cons.IH [OF this] True rt' ins' show ?thesis by simp
  next
    case False
    then show ?thesis
      using Cons.prems rt ins rt' ins' by (cases f; cases e) auto
  qed
qed

lemma batchInsert_stdlog:
  assumes "batchInsert rows w = (r, w')"
  shows "batchInsert rows (w\<lparr>stdlog := s\<rparr>) = (r, w'\<lparr>stdlog := s\<rparr>)"
proof -
  obtain f1 w1 where r1: "roundtrip w = (f1, w1)" by (cases "roundtrip w")
  obtain f2 w2 where r2: "roundtrip w1 = (f2, w2)" by (cases "roundtrip w1")
  obtain e w3 where ex: "exec_rows rows w2 = (e, w3)" by (cases "exec_rows rows w2")
  obtain f4 w4 where r4: "roundtrip w3 = (f4, w4)" by (cases "roundtrip w3")
  note s = roundtrip_stdlog [OF r1, of s] roundtrip_stdlog [OF r2, of s]
    exec_rows_stdlog [OF ex, of s] roundtrip_stdlog [OF r4, of s]
  show ?thesis
    using assms r1 r2 ex r4 s
    by (cases f1; cases f2; cases e; cases f4) (auto simp: batchInsert_def rollback_def)
qed

lemma LogEvent_stdlog:
  "LogEvent t payload (w\<lparr>stdlog := s\<rparr>) = (LogEvent t payload w)\<lparr>stdlog := s\<rparr>"
  by (simp add: LogEvent_def)

lemma foldl_LogEvent_stdlog:
  "foldl (\<lambda>w' p. LogEvent t (f p) w') (w\<lparr>stdlog := s\<rparr>) ps =
     (foldl (\<lambda>w' p. LogEvent t (f p) w') w ps)\<lparr>stdlog := s\<rparr>"
  by (induction ps arbitrary: w) (simp_all add: LogEvent_stdlog)

lemma processPharmaciesBatch_stdlog:
  assumes "processPharmaciesBatch ps w = (r, w')"
  shows "processPharmaciesBatch ps (w\<lparr>stdlog := s\<rparr>) = (r, w'\<lparr>stdlog := s\<rparr>)"
proof -
  let ?rows = "map (\<lambda>p. PharmacyRow (Pharmacy_NPI p) (Pharmacy_Chain p)) ps"
  obtain e w1 where b: "batchInsert ?rows (entered (CallBatchCreatePharmacies ps) w) = (e, w1)"
    by (cases "batchInsert ?rows (entered (CallBatchCreatePharmacies ps) w)")
  have "entered (CallBatchCreatePharmacies ps) (w\<lparr>stdlog := s\<rparr>) =
        (entered (CallBatchCreatePharmacies ps) w)\<lparr>stdlog := s\<rparr>"
    by (simp add: entered_def)
  then have "batchInsert ?rows (entered (CallBatchCreatePharmacies ps) (w\<lparr>stdlog := s\<rparr>)) =
      (e, w1\<lparr>stdlog := s\<rparr>)"
    using batchInsert_stdlog [OF b, of s] by simp
  then show ?thesis
    using assms b
    by (cases e)
       (auto simp: processPharmaciesBatch_def BatchCreatePharmacies_def foldl_LogEvent_stdlog)
qed

lemma process_all_stdlog:
  "process_all bs w = (ok, w') \<Longrightarrow> process_all bs (w\<lparr>stdlog := s\<rparr>) = (ok, w'\<lparr>stdlog := s\<rparr>)"
proof (induction bs arbitrary: w)
  case Nil
  then show ?case by auto
next
  case (Cons b bs)
  obtain e w1 where p: "processPharmaciesBatch b w = (e, w1)"
    by (cases "processPharmaciesBatch b w")
  note p' = processPharmaciesBatch_stdlog [OF p, of s]
  show ?case
  proof (cases e)
    case None
    then have "process_all bs w1 = (ok, w')" using Cons.prems p by simp
    from Cons.IH [OF this] None p' show ?thesis by simp
  next
    case (Some msg)
    then show ?thesis using Cons.prems p p' by auto
  qed
qed

text \<open>
  The loop against the batching rule: the loop returns no error exactly when every
  batch of the valid rows is accepted, and but for the log it ends in the state that
  processing these batches in order, up to the first refusal, ends in.
\<close>

lemma csv_eof_refines:
  assumes "csv_eof batch tot w = ((n, err), w')"
  shows "process_all (chunk b batch []) w = (err = None, w')"
proof (cases "batch = []")
  case True
  then show ?thesis using assms by (simp add: csv_eof_def)
next
  case False
  obtain e w1 where p: "processPharmaciesBatch batch w = (e, w1)"
    by (cases "processPharmaciesBatch batch w")
  then show ?thesis
    using assms False by (cases e) (auto simp: csv_eof_def)
qed

lemma csv_loop_refines:
  assumes "0 < k" "CsvError ''EOF'' \<notin> set rows"
    and "csv_loop ls filename k rows batch tot line w = ((n, err), w')"
  shows "process_all (chunk (batchSize ls) batch (map row_pharmacy (filter (valid_row k) rows))) w =
           (err = None, w'\<lparr>stdlog := stdlog w\<rparr>)"
  using assms(2,3)
proof (induction rows arbitrary: batch tot line w)
  case Nil
  then show ?case
    using csv_eof_refines [of batch tot w n err w' "batchSize ls"] csv_eof_submits [of batch tot w n err w']
    by simp
next
  case (Cons rd rows)
  have noeof: "CsvError ''EOF'' \<notin> set rows" and rd: "rd \<noteq> CsvError ''EOF''"
    using Cons.prems(1) by auto
  note IH = Cons.IH [OF noeof]
  from assms(1) rd Cons.prems(2) show ?case
  proof (cases rule: csv_loop_cases)
    case (skip l)
    from process_all_stdlog [OF IH [OF skip(2)], of "stdlog w"] skip(1) show ?thesis
      by (simp add: log_Printf_def)
  next
    case keep
    from IH [OF keep(3)] keep(1,2) show ?thesis by simp
  next
    case (flush w1)
    have "stdlog w1 = stdlog w"
      using processPharmaciesBatch_frame(2) [OF flush(3)] .
    with IH [OF flush(4)] flush(1,2,3) show ?thesis by simp
  next
    case (fail e)
    have "stdlog w' = stdlog w"
      using processPharmaciesBatch_frame(2) [OF fail(3)] .
    then have "w'\<lparr>stdlog := stdlog w\<rparr> = w'" by simp
    with fail show ?thesis by simp
  qed
qed

text \<open>
  The batches are the rows, in order.  A database that answers accepts every batch
  of rows whose identifier has passed \<open>ValidateNPI\<close> and whose chain is one of the
  three the schema knows.
\<close>

lemma concat_chunk: "concat (chunk b batch xs) = batch @ xs"
  by (induction xs arbitrary: batch) simp_all

lemma insert_pharmacy_accepted:
  assumes "length npi \<le> 10" "valid_chain chain"
  shows "\<exists>w'. insert_row True (PharmacyRow npi chain) w = (None, w') \<and> faults w' = faults w"
proof -
  have "length (filter P npi) \<le> 10" for P
    using assms(1) length_filter_le [of P npi] by linarith
  then have "char_length npi \<le> 10" by (simp add: char_length_def)
  moreover have "char_length chain \<le> 20"
    using assms(2) by (auto simp: valid_chain_def char_length_def)
  ultimately show ?thesis
    using assms(2) by (simp add: Let_def)
qed

lemma exec_rows_accepted:
  assumes "faults w = []"
    and "\<forall>p\<in>set ps. length (Pharmacy_NPI p) \<le> 10 \<and> valid_chain (Pharmacy_Chain p)"
  shows "\<exists>w'. exec_rows (map (\<lambda>p. PharmacyRow (Pharmacy_NPI p) (Pharmacy_Chain p)) ps) w =
           (None, w') \<and> faults w' = []"
  using assms
proof (induction ps arbitrary: w)
  case Nil
  then show ?case by simp
next
  case (Cons p ps)
  have rt: "roundtrip w = (None, w)"
    using Cons.prems(1) by (simp add: roundtrip_def)
  obtain w1 where ins: "insert_row True (PharmacyRow (Pharmacy_NPI p) (Pharmacy_Chain p)) w =
      (None, w1)" and f: "faults w1 = []"
    using insert_pharmacy_accepted [of "Pharmacy_NPI p" "Pharmacy_Chain p" w] Cons.prems
    by auto
  from Cons.IH [OF f] Cons.prems(2) rt ins show ?case by simp
qed

lemma processPharmaciesBatch_accepted:
  assumes "faults w = []"
    and "\<forall>p\<in>set ps. length (Pharmacy_NPI p) \<le> 10 \<and> valid_chain (Pharmacy_Chain p)"
  shows "\<exists>w'. processPharmaciesBatch ps w = (None, w') \<and> faults w' = []"
proof -
  let ?w0 = "entered (CallBatchCreatePharmacies ps) w"
  have f0: "faults ?w0 = []" using assms(1) by (simp add: entered_def)
  then have rt: "roundtrip ?w0 = (None, ?w0)" by (simp add: roundtrip_def)
  obtain w1 where ex: "exec_rows (map (\<lambda>p. PharmacyRow (Pharmacy_NPI p) (Pharmacy_Chain p)) ps) ?w0
      = (None, w1)" and f1: "faults w1 = []"
    using exec_rows_accepted [OF f0 assms(2)] by auto
  have rt1: "roundtrip w1 = (None, w1)" using f1 by (simp add: roundtrip_def)
  have "faults (foldl (\<lambda>w' p. LogEvent t (g p) w') w1 qs) = []" for t g qs
    using f1 by (induction qs arbitrary: w1) (simp_all add: LogEvent_def)
  then show ?thesis
    using rt ex rt1
    by (simp add: processPharmaciesBatch_def BatchCreatePharmacies_def batchInsert_def)
qed

lemma process_all_accepted:
  assumes "faults w = []"
    and "\<forall>batch\<in>set bs. \<forall>p\<in>set batch.
           length (Pharmacy_NPI p) \<le> 10 \<and> valid_chain (Pharmacy_Chain p)"
  shows "fst (process_all bs w)"
  using assms
proof (induction bs arbitrary: w)
  case Nil
  then show ?case by simp
next
  case (Cons b bs)
  obtain w1 where p: "processPharmaciesBatch b w = (None, w1)" and f: "faults w1 = []"
    using processPharmaciesBatch_accepted [of w b] Cons.prems by auto
  from Cons.IH [OF f] Cons.prems(2) p show ?case by simp
qed

lemma valid_row_NPI:
  "valid_row k rd \<Longrightarrow> length (Pharmacy_NPI (row_pharmacy rd)) \<le> 10"
  by (cases rd) (auto simp: valid_row_def row_pharmacy_def ValidateNPI_def split: if_splits)

lemma known_chains_accepted:
  assumes "faults w = []"
    and "\<forall>rd\<in>set rows. valid_row k rd \<longrightarrow> valid_chain (Pharmacy_Chain (row_pharmacy rd))"
  shows "fst (process_all (chunk b [] (map row_pharmacy (filter (valid_row k) rows))) w)"
proof -
  let ?valid = "map row_pharmacy (filter (valid_row k) rows)"
  have ok: "\<forall>p\<in>set ?valid. length (Pharmacy_NPI p) \<le> 10 \<and> valid_chain (Pharmacy_Chain p)"
    using assms(2) valid_row_NPI by auto
  have sub: "set batch \<subseteq> set ?valid" if "batch \<in> set (chunk b [] ?valid)" for batch
  proof -
    have "set batch \<subseteq> set (concat (chunk b [] ?valid))" using that by auto
    then show ?thesis by (simp only: concat_chunk append_Nil)
  qed
  have "\<forall>batch\<in>set (chunk b [] ?valid). \<forall>p\<in>set batch.
      length (Pharmacy_NPI p) \<le> 10 \<and> valid_chain (Pharmacy_Chain p)"
    using ok sub by blast
  from process_all_accepted [OF assms(1) this] show ?thesis .
qed

text \<open>
  The loader asks a row for at least two columns, not for exactly two; it is the
  reader that holds every row to the number of columns of the header.  Under a
  header of three columns the row of three columns is submitted and the row of two
  is not.
\<close>

lemma loadPharmaciesFromCSV_wide_header:
  "Open_csv sample_os ''data/pharmacies/wide.csv'' =
     Inr [CsvRecord [''chain'', ''npi'', ''city''],
          CsvRecord [''saint'', ''1112223334'', ''Lyon''],
          CsvRecord [''doctor'', ''5556667778''],
          CsvRecord [''health'', ''12345'', ''Oslo'']] \<and>
   fst (loadPharmaciesFromCSV NewLoaderService sample_os ''data/pharmacies/wide.csv''
          empty_world) = (1, None) \<and>
   submitted (snd (loadPharmaciesFromCSV NewLoaderService sample_os
                     ''data/pharmacies/wide.csv'' empty_world)) =
     [\<lparr>Pharmacy_ID = 0, Pharmacy_NPI = ''1112223334'', Pharmacy_Chain = ''saint''\<rparr>]"
  by (simp add: loader_defs store_defs sample_os_def empty_world_def sample_world_def
      submitted_def)

text \<open>
  C9.  The claim: of the rows after the header, the CSV loader accumulates exactly
  the N valid ones, those with two columns and a valid provider identifier, and a
  malformed row never ends the reading of the file.  A refused batch does end it:
  the file \<open>q.csv\<close> has two valid rows and no malformed one, the first with a chain
  the \<open>CHECK\<close> constraint of the schema refuses; with a batch size of one the loader
  submits the first row, returns the error of its batch with a tally of zero, and
  never accumulates the second row.
\<close>

theorem loadPharmaciesFromCSV_refused_batch:
  "Open_csv sample_os ''data/pharmacies/q.csv'' =
     Inr [CsvRecord [''chain'', ''npi''],
          CsvRecord [''unknown'', ''1112223334''],
          CsvRecord [''saint'', ''5556667778'']] \<and>
   valid_row 2 (CsvRecord [''unknown'', ''1112223334'']) \<and>
   valid_row 2 (CsvRecord [''saint'', ''5556667778'']) \<and>
   fst (loadPharmaciesFromCSV (NewLoaderServiceWithBatchSize 1) sample_os
          ''data/pharmacies/q.csv'' empty_world) =
     (0, Some (''failed to process batch at line 2: failed to batch create pharmacies: '' @
               ''failed to execute insert: pq: new row violates check constraint valid_chain'')) \<and>
   submitted (snd (loadPharmaciesFromCSV (NewLoaderServiceWithBatchSize 1) sample_os
                     ''data/pharmacies/q.csv'' empty_world)) =
     [\<lparr>Pharmacy_ID = 0, Pharmacy_NPI = ''1112223334'', Pharmacy_Chain = ''unknown''\<rparr>] \<and>
   stdlog (snd (loadPharmaciesFromCSV (NewLoaderServiceWithBatchSize 1) sample_os
                  ''data/pharmacies/q.csv'' empty_world)) = []"
proof -
  have "Itoa 2 = ''2''"
    by (simp add: Itoa_def Utoa.simps [of 2] hex_digit_def)
  then show ?thesis
    by (simp add: loader_defs store_defs sample_os_def empty_world_def sample_world_def
        submitted_def valid_row_def)
qed

text \<open>
  C9, as amended.  Take a pharmacy file whose header has two columns, as
  \<open>chain,npi\<close> has, none of whose read errors prints as \<open>EOF\<close>; its valid rows are
  those that parse, have exactly two columns and carry an identifier that passes
  \<open>ValidateNPI\<close> once trimmed.  Whatever the loader submits is, in order, a prefix of
  the valid rows, so no other row is ever part of a batch.  The loader hands the
  valid rows to the repository in batches of the configured size, in file order, up
  to the first batch that is refused: it returns no error exactly when no batch
  insert fails, and its final state is, but for the log, the one these batch inserts
  leave.  When it returns no error it has submitted all the N valid rows, returns N,
  and has logged one line for each of the M other rows.  No batch insert fails, and
  so no error is returned, when the database has no fault in store and every valid
  row carries a chain the schema knows.
\<close>

theorem loadPharmaciesFromCSV_accumulates:
  assumes "Open_csv os filename = Inr (CsvRecord header # rows)" "length header = 2"
    and "CsvError ''EOF'' \<notin> set rows"
    and "loadPharmaciesFromCSV ls os filename w = ((n, err), w')"
  shows "\<exists>xs. submitted w' = submitted w @ xs \<and>
           prefix xs (map row_pharmacy (filter (valid_row 2) rows)) \<and>
           process_all (chunk (batchSize ls) [] (map row_pharmacy (filter (valid_row 2) rows))) w =
             (err = None, w'\<lparr>stdlog := stdlog w\<rparr>) \<and>
           (err = None \<longrightarrow>
              xs = map row_pharmacy (filter (valid_row 2) rows) \<and>
              n = int (length xs) \<and>
              length (stdlog w') =
                length (stdlog w) + length (filter (\<lambda>rd. \<not> valid_row 2 rd) rows)) \<and>
           (faults w = [] \<and>
            (\<forall>rd\<in>set rows. valid_row 2 rd \<longrightarrow> valid_chain (Pharmacy_Chain (row_pharmacy rd)))
              \<longrightarrow> err = None)"
proof -
  have loop: "csv_loop ls filename 2 rows [] 0 1 w = ((n, err), w')"
    using assms(1,2,4) by (simp add: loadPharmaciesFromCSV_def)
  have pos: "0 < (2::nat)" by simp
  note ref = csv_loop_refines [OF pos assms(3) loop]
  have "faults w = [] \<and>
      (\<forall>rd\<in>set rows. valid_row 2 rd \<longrightarrow> valid_chain (Pharmacy_Chain (row_pharmacy rd)))
      \<longrightarrow> err = None"
    using known_chains_accepted [of w rows 2 "batchSize ls"] ref by auto
  with csv_loop_submits [OF pos assms(3) loop] ref show ?thesis
    by auto
qed

theorem loadPharmaciesFromCSV_accumulates_witness:
  "submitted (snd (loadPharmaciesFromCSV NewLoaderService sample_os ''data/pharmacies/p.csv''
                     empty_world)) =
     [\<lparr>Pharmacy_ID = 0, Pharmacy_NPI = ''1112223334'', Pharmacy_Chain = ''saint''\<rparr>] \<and>
   fst (loadPharmaciesFromCSV NewLoaderService sample_os ''data/pharmacies/p.csv'' empty_world) =
     (1, None) \<and>
   length (stdlog (snd (loadPharmaciesFromCSV NewLoaderService sample_os
                          ''data/pharmacies/p.csv'' empty_world))) = 2"
proof -
  let ?rows = "[CsvRecord [''saint'', ''1112223334''],
                CsvRecord [''doctor'', ''5556667778'', ''Lyon''],
                CsvRecord [''health'', ''12345'']]"
  obtain n err w' where r: "loadPharmaciesFromCSV NewLoaderService sample_os
      ''data/pharmacies/p.csv'' empty_world = ((n, err), w')"
    by (metis surj_pair)
  have o: "Open_csv sample_os ''data/pharmacies/p.csv'' =
      Inr (CsvRecord [''chain'', ''npi''] # ?rows)"
    by (simp add: sample_os_def)
  have v: "map row_pharmacy (filter (valid_row 2) ?rows) =
      [\<lparr>Pharmacy_ID = 0, Pharmacy_NPI = ''1112223334'', Pharmacy_Chain = ''saint''\<rparr>]"
    "length (filter (\<lambda>rd. \<not> valid_row 2 rd) ?rows) = 2"
    by (simp_all add: valid_row_def row_pharmacy_def loader_defs)
  have s0: "submitted empty_world = []" "stdlog empty_world = []" "faults empty_world = []"
    by (simp_all add: submitted_def empty_world_def sample_world_def)
  have h: "length [''chain'', ''npi''] = 2" and ne: "CsvError ''EOF'' \<notin> set ?rows"
    by simp_all
  have ch: "\<forall>rd\<in>set ?rows. valid_row 2 rd \<longrightarrow> valid_chain (Pharmacy_Chain (row_pharmacy rd))"
    by (simp add: valid_row_def row_pharmacy_def loader_defs)
  from loadPharmaciesFromCSV_accumulates [OF o h ne r] obtain xs
    where xs: "submitted w' = submitted empty_world @ xs"
      and imp: "err = None \<longrightarrow>
        xs = map row_pharmacy (filter (valid_row 2) ?rows) \<and>
        n = int (length xs) \<and>
        length (stdlog w') =
          length (stdlog empty_world) + length (filter (\<lambda>rd. \<not> valid_row 2 rd) ?rows)"
      and acc: "faults empty_world = [] \<and>
        (\<forall>rd\<in>set ?rows. valid_row 2 rd \<longrightarrow> valid_chain (Pharmacy_Chain (row_pharmacy rd)))
        \<longrightarrow> err = None"
    by blast
  from acc s0(3) ch have e: "err = None" by blast
  with imp have c: "xs = map row_pharmacy (filter (valid_row 2) ?rows) \<and>
      n = int (length xs) \<and>
      length (stdlog w') =
        length (stdlog empty_world) + length (filter (\<lambda>rd. \<not> valid_row 2 rd) ?rows)"
    by blast
  from c [unfolded v s0] xs [unfolded s0] e show ?thesis
    using r by simp
qed

end
